theory Spec2Isabelle
  imports Complex_Main "HOL-Library.Word"
begin

unbundle bit_operations_syntax

section \<open>Machine types\<close>

text \<open>
  The kernel targets a 32-bit Cortex-M3: \<open>uint32_t\<close>, \<open>unsigned long\<close> and
  \<open>tTaskStack\<close> are 32-bit words, \<open>uint8_t\<close> is an 8-bit word. Arithmetic on them
  wraps around, as \<open>+\<close> and \<open>-\<close> on \<open>'a word\<close> do.
\<close>

type_synonym u8 = "8 word"
type_synonym u32 = "32 word"

section \<open>tLib: the intrusive list and the priority bitmap\<close>

text \<open>
  Modelled from the spec: \<open>tLib.h\<close> and \<open>tLib.c\<close> (tList, tNode, tBitMap and their
  functions) are not among the source files. The spec (4.1) describes the list as a
  circular doubly-linked list with a head sentinel and the operations insert-first,
  insert-last, remove-specific-node, remove-first and count. A list is modelled by the
  sequence of the objects whose nodes are linked into it, head first; an object is
  named by its address (a natural number). A node is linked into a list at most once,
  so removing a node removes every occurrence of its owner. \<open>tNodeInit\<close> only resets
  the link fields of a node, which the model does not hold.

  A node has one pair of links, so the insertions are defined for a node that is not
  linked into the list: \<open>tListAddFirst\<close> and \<open>tListAddLast\<close> give the list with the
  node added. Linking a node that is still on the list rewrites its links and leaves
  the list corrupted in a way that \<open>tLib.c\<close> decides; the sequence of the model has no
  value for that. The kernel links a task or a timer that it has initialised or
  unlinked before; the one place in these files where the code itself links a node that
  can still be on the list, the time-slice rotation of the tick handler, tests for it
  in the model and reports the fault \<open>ListCorrupted\<close>.
\<close>

type_synonym tList = "nat list"

definition tListInit :: "tList" where
  "tListInit = []"

definition tListCount :: "tList \<Rightarrow> nat" where
  "tListCount l = length l"

definition tListFirst :: "tList \<Rightarrow> nat option" where
  "tListFirst l = (case l of [] \<Rightarrow> None | n # _ \<Rightarrow> Some n)"

definition tListAddFirst :: "tList \<Rightarrow> nat \<Rightarrow> tList" where
  "tListAddFirst l n = n # l"

definition tListAddLast :: "tList \<Rightarrow> nat \<Rightarrow> tList" where
  "tListAddLast l n = l @ [n]"

definition tListRemove :: "tList \<Rightarrow> nat \<Rightarrow> tList" where
  "tListRemove l n = removeAll n l"

definition tListRemoveFirst :: "tList \<Rightarrow> tList" where
  "tListRemoveFirst l = (case l of [] \<Rightarrow> [] | _ # ns \<Rightarrow> ns)"

text \<open>
  Modelled from the spec: the bitmap (4.1) is a 32-bit word with \<open>set(i)\<close>,
  \<open>clear(i)\<close> and \<open>firstSet()\<close>, the lowest index of a set bit. \<open>firstSet\<close> of a
  bitmap with no bit set has no index to return: the model returns \<open>None\<close>.
  \<open>tBitMapInit\<close> initialises a bitmap: no bit is set.
\<close>

type_synonym tBitMap = u32

definition tBitMapInit :: "tBitMap" where
  "tBitMapInit = 0"

definition tBitMapSet :: "tBitMap \<Rightarrow> nat \<Rightarrow> tBitMap" where
  "tBitMapSet b pos = b OR push_bit pos 1"

definition tBitMapClear :: "tBitMap \<Rightarrow> nat \<Rightarrow> tBitMap" where
  "tBitMapClear b pos = b AND NOT (push_bit pos 1)"

definition tBitMapGetFirstSet :: "tBitMap \<Rightarrow> nat option" where
  "tBitMapGetFirstSet b = List.find (\<lambda>i. bit b i) [0..<32]"

section \<open>Configuration and result codes\<close>

text \<open>
  \<open>tConfig.h\<close> and \<open>tTask.h\<close> are not among the source files, so the macros the code
  uses are parameters of the model: the slice length, the ticks per second, the number
  of priorities, and the masks of the task state bits.
\<close>

record tConfig =
  TINYOS_PRIO_COUNT :: nat
  TINYOS_SLICE_MAX :: u32
  TICKS_PER_SEC :: u32
  TINYOS_TASK_STATE_DELAYED :: u32
  TINYOS_TASK_STATE_SUSPEND :: u32
  TINYOS_TASK_WAIT_MASK :: u32

text \<open>Modelled from the spec: \<open>TINYOS_TASK_STATE_RDY\<close> (\<open>tTask.h\<close>) is the state with no
  bit set (spec 3: READY is implicit, no bits set).\<close>

definition TINYOS_TASK_STATE_RDY :: u32 where
  "TINYOS_TASK_STATE_RDY = 0"

text \<open>Modelled from the spec: the result codes of section 7 (\<open>tError\<close> is declared in a
  header that is not among the source files).\<close>

datatype tError = tErrorNoError | tErrorTimeOut | tErrorDeleted | tErrorResourceFull | tErrorOwner

text \<open>
  What C leaves undefined is a fault of the model: the scheduler finding no ready task
  (an index past \<open>taskTable\<close>, a null list head), a division by zero, an access
  outside a task's stack region, and the insertion into a list of a node that is
  still linked into it.
\<close>

datatype fault = NoReadyTask | DivideByZero | StackOutOfRange | ListCorrupted

section \<open>The task control block and the kernel state\<close>

text \<open>
  The fields of \<open>tTask\<close> that \<open>tTask.c\<close> and \<open>main.c\<close> use (the declaration is in
  \<open>tTask.h\<close>, which is not among the source files). Stack addresses are word
  addresses into \<open>memory\<close>; function and data pointers stored in the block are 32-bit
  values with 0 for null; \<open>waitEvent\<close> is the address of the event the task waits on.
\<close>

record tTask =
  stack :: nat
  stackBase :: nat
  stackSize :: u32
  delayTicks :: u32
  prio :: u32
  state :: u32
  slice :: u32
  suspendCount :: u32
  clean :: u32
  cleanParam :: u32
  requestDeleteFlag :: u8
  waitEvent :: "nat option"
  eventMsg :: u32
  waitEventResult :: tError

text \<open>
  The globals of \<open>main.c\<close>, with the memory the task blocks, the stacks and the events
  live in. \<open>taskTable\<close> has \<open>TINYOS_PRIO_COUNT\<close> entries in C; the table of the model is
  total, and an index from \<open>TINYOS_PRIO_COUNT\<close> on stands for an access past the array.
  \<open>tTaskSwitchCalls\<close> counts the calls of the port's \<open>tTaskSwitch\<close>, which pends
  the context-switch interrupt. \<open>cpuUsage\<close> holds the \<open>uint32_t\<close> value of the expression
  that C converts to \<open>float\<close> when it assigns it.
\<close>

record kernel =
  tasks :: "nat \<Rightarrow> tTask"
  memory :: "nat \<Rightarrow> u32"
  events :: "nat \<Rightarrow> tList"
  curTask :: nat
  nextTask :: nat
  taskPrioBitMap :: tBitMap
  taskTable :: "nat \<Rightarrow> tList"
  schedLockCounter :: u8
  tTaskDelayedList :: tList
  idleCount :: u32
  idleMaxCount :: u32
  tickCount :: u32
  enableCpuUsageState :: u32
  cpuUsage :: u32
  tTaskSwitchCalls :: nat

section \<open>The scheduler core (12.02 main.c)\<close>

definition tTaskHighestReady :: "kernel \<Rightarrow> nat option" where
  "tTaskHighestReady k =
     (case tBitMapGetFirstSet (taskPrioBitMap k) of
        None \<Rightarrow> None
      | Some highestPrio \<Rightarrow> tListFirst (taskTable k highestPrio))"

definition tTaskSwitch :: "kernel \<Rightarrow> kernel" where
  "tTaskSwitch k = k\<lparr>tTaskSwitchCalls := Suc (tTaskSwitchCalls k)\<rparr>"

definition tTaskSched :: "kernel \<Rightarrow> fault + kernel" where
  "tTaskSched k =
     (if schedLockCounter k > 0 then Inr k
      else case tTaskHighestReady k of
             None \<Rightarrow> Inl NoReadyTask
           | Some tmpTask \<Rightarrow>
               if tmpTask \<noteq> curTask k then Inr (tTaskSwitch (k\<lparr>nextTask := tmpTask\<rparr>))
               else Inr k)"

definition tTaskDelayedInit :: "kernel \<Rightarrow> kernel" where
  "tTaskDelayedInit k = k\<lparr>tTaskDelayedList := tListInit\<rparr>"

definition tTaskSchedInit :: "tConfig \<Rightarrow> kernel \<Rightarrow> kernel" where
  "tTaskSchedInit cfg k =
     k\<lparr>schedLockCounter := 0,
       taskTable := (\<lambda>i. if i < TINYOS_PRIO_COUNT cfg then tListInit else taskTable k i)\<rparr>"

definition tTaskSchedDisable :: "kernel \<Rightarrow> kernel" where
  "tTaskSchedDisable k =
     (let k1 = (if schedLockCounter k < 255
                then k\<lparr>schedLockCounter := schedLockCounter k + 1\<rparr> else k)
      in k1\<lparr>taskPrioBitMap := tBitMapInit\<rparr>)"

definition tTaskSchedEnable :: "kernel \<Rightarrow> fault + kernel" where
  "tTaskSchedEnable k =
     (if schedLockCounter k > 0
      then (let k1 = k\<lparr>schedLockCounter := schedLockCounter k - 1\<rparr>
            in if schedLockCounter k1 = 0 then tTaskSched k1 else Inr k1)
      else Inr k)"

definition tTaskSchedRdy :: "kernel \<Rightarrow> nat \<Rightarrow> kernel" where
  "tTaskSchedRdy k task =
     (let p = unat (tTask.prio (tasks k task))
      in k\<lparr>taskTable := (taskTable k)(p := tListAddFirst (taskTable k p) task),
            taskPrioBitMap := tBitMapSet (taskPrioBitMap k) p\<rparr>)"

definition tTaskSchedUnRdy :: "kernel \<Rightarrow> nat \<Rightarrow> kernel" where
  "tTaskSchedUnRdy k task =
     (let p = unat (tTask.prio (tasks k task));
          k1 = k\<lparr>taskTable := (taskTable k)(p := tListRemove (taskTable k p) task)\<rparr>
      in if tListCount (taskTable k1 p) = 0
         then k1\<lparr>taskPrioBitMap := tBitMapClear (taskPrioBitMap k1) p\<rparr>
         else k1)"

definition tTaskSchedRemove :: "kernel \<Rightarrow> nat \<Rightarrow> kernel" where
  "tTaskSchedRemove k task =
     (let p = unat (tTask.prio (tasks k task));
          k1 = k\<lparr>taskTable := (taskTable k)(p := tListRemove (taskTable k p) task)\<rparr>
      in if tListCount (taskTable k1 p) = 0
         then k1\<lparr>taskPrioBitMap := tBitMapClear (taskPrioBitMap k1) p\<rparr>
         else k1)"

text \<open>The invariant of the ready set: for every priority, the ready list is non-empty
  exactly when the bit of the priority is set.\<close>

definition schedInv :: "tConfig \<Rightarrow> kernel \<Rightarrow> bool" where
  "schedInv cfg k =
     list_all (\<lambda>p. (taskTable k p \<noteq> []) = bit (taskPrioBitMap k) p) [0..<TINYOS_PRIO_COUNT cfg]"

section \<open>The delay list (12.02 main.c)\<close>

definition tTimeTaskWait :: "tConfig \<Rightarrow> kernel \<Rightarrow> nat \<Rightarrow> u32 \<Rightarrow> kernel" where
  "tTimeTaskWait cfg k task ticks =
     (let t1 = (tasks k task)\<lparr>tTask.delayTicks := ticks\<rparr>;
          t2 = t1\<lparr>tTask.state := tTask.state t1 OR TINYOS_TASK_STATE_DELAYED cfg\<rparr>
      in k\<lparr>tasks := (tasks k)(task := t2),
            tTaskDelayedList := tListAddLast (tTaskDelayedList k) task\<rparr>)"

definition tTimeTaskWakeUp :: "tConfig \<Rightarrow> kernel \<Rightarrow> nat \<Rightarrow> kernel" where
  "tTimeTaskWakeUp cfg k task =
     (let t = tasks k task
      in k\<lparr>tTaskDelayedList := tListRemove (tTaskDelayedList k) task,
            tasks := (tasks k)(task :=
              t\<lparr>tTask.state := tTask.state t AND NOT (TINYOS_TASK_STATE_DELAYED cfg)\<rparr>)\<rparr>)"

definition tTimeTaskRemove :: "kernel \<Rightarrow> nat \<Rightarrow> kernel" where
  "tTimeTaskRemove k task = k\<lparr>tTaskDelayedList := tListRemove (tTaskDelayedList k) task\<rparr>"

definition tTimeTickInit :: "kernel \<Rightarrow> kernel" where
  "tTimeTickInit k = k\<lparr>tickCount := 0\<rparr>"

text \<open>
  Modelled from the spec: \<open>tEvent.c\<close> is not among the source files. The spec (4.6):
  \<open>eventRemoveTask(task, msg, result)\<close> removes the task from its event's queue and
  marks it ready with the given result. The task leaves the wait list of the event it
  waits on, it waits on no event any more, the message and the result are stored in
  it, and its wait-event state bits are cleared. A task that waits on no event is left
  as it is apart from the stored message and result.
\<close>

definition tEventRemoveTask :: "tConfig \<Rightarrow> kernel \<Rightarrow> nat \<Rightarrow> u32 \<Rightarrow> tError \<Rightarrow> kernel" where
  "tEventRemoveTask cfg k task msg result =
     (let t = tasks k task;
          k1 = (case waitEvent t of
                  None \<Rightarrow> k
                | Some e \<Rightarrow> k\<lparr>events := (events k)(e := tListRemove (events k e) task)\<rparr>)
      in k1\<lparr>tasks := (tasks k1)(task :=
              t\<lparr>waitEvent := None, eventMsg := msg, waitEventResult := result,
                tTask.state := tTask.state t AND NOT (TINYOS_TASK_WAIT_MASK cfg)\<rparr>)\<rparr>)"

section \<open>The tick handler (12.02 main.c)\<close>

text \<open>
  The body of the loop over \<open>tTaskDelayedList\<close> in \<open>tTaskSystemTickHandler\<close>, for the
  task that owns the node: \<open>--task->delayTicks\<close>, and at 0 the timeout of its event
  wait (when it has a \<open>waitEvent\<close>), \<open>tTimeTaskWakeUp\<close> and \<open>tTaskSchedRdy\<close>.
\<close>

definition tickDelayedNode :: "tConfig \<Rightarrow> kernel \<Rightarrow> nat \<Rightarrow> kernel" where
  "tickDelayedNode cfg k task =
     (let t = tasks k task;
          t1 = t\<lparr>tTask.delayTicks := tTask.delayTicks t - 1\<rparr>;
          k1 = k\<lparr>tasks := (tasks k)(task := t1)\<rparr>
      in if tTask.delayTicks t1 = 0
         then (let k2 = (if waitEvent t1 \<noteq> None
                         then tEventRemoveTask cfg k1 task 0 tErrorTimeOut else k1);
                   k3 = tTimeTaskWakeUp cfg k2 task
               in tTaskSchedRdy k3 task)
         else k1)"

text \<open>
  Modelled from the spec: the order in which the loop
  \<open>for(node = head.nextNode; node != &head; node = node->nextNode)\<close> visits the nodes
  when its body unlinks \<open>node\<close>. What \<open>tListRemove\<close> leaves in the links of the node
  it removes is in \<open>tLib.c\<close>, which is not among the source files; the spec (4.5) has
  the handler walk the list and treat each task of it, so the walk visits the tasks
  that were on the list when it started, in their order.
\<close>

fun tickDelayedWalk :: "tConfig \<Rightarrow> kernel \<Rightarrow> nat list \<Rightarrow> kernel" where
  "tickDelayedWalk cfg k [] = k"
| "tickDelayedWalk cfg k (task # rest) = tickDelayedWalk cfg (tickDelayedNode cfg k task) rest"

definition tickDelayedList :: "tConfig \<Rightarrow> kernel \<Rightarrow> kernel" where
  "tickDelayedList cfg k = tickDelayedWalk cfg k (tTaskDelayedList k)"

text \<open>
  The time-slice part of the handler: \<open>if(--curTask->slice == 0) { ... }\<close>. The code
  removes the first node of the ready list, whichever task owns it, and then links the
  node of \<open>curTask\<close> at the end. When \<open>curTask\<close> was not the first node, its node is
  still linked at that moment: the fault \<open>ListCorrupted\<close>.
\<close>

definition tickSlice :: "tConfig \<Rightarrow> kernel \<Rightarrow> fault + kernel" where
  "tickSlice cfg k =
     (let c = curTask k;
          t1 = (tasks k c)\<lparr>tTask.slice := tTask.slice (tasks k c) - 1\<rparr>;
          k1 = k\<lparr>tasks := (tasks k)(c := t1)\<rparr>;
          p = unat (tTask.prio t1)
      in if tTask.slice t1 = 0
         then (if tListCount (taskTable k1 p) > 0
               then (let l1 = tListRemoveFirst (taskTable k1 p)
                     in if c \<in> set l1 then Inl ListCorrupted
                        else (let l2 = tListAddLast l1 c
                              in Inr (k1\<lparr>taskTable := (taskTable k1)(p := l2),
                                        tasks := (tasks k1)(c :=
                                          t1\<lparr>tTask.slice := TINYOS_SLICE_MAX cfg\<rparr>)\<rparr>)))
               else Inr k1)
         else Inr k1)"

definition initCpuUsageState :: "kernel \<Rightarrow> kernel" where
  "initCpuUsageState k =
     k\<lparr>enableCpuUsageState := 0, idleCount := 0, cpuUsage := 0, idleMaxCount := 0\<rparr>"

text \<open>
  \<open>checkCpuUsage\<close>. The operands of \<open>(1 - idleCount / idleMaxCount) * 100\<close> are
  \<open>uint32_t\<close>, so the division is the truncating division of unsigned words and the
  subtraction and the product wrap around; dividing by 0 is a fault.
\<close>

definition checkCpuUsage :: "tConfig \<Rightarrow> kernel \<Rightarrow> fault + kernel" where
  "checkCpuUsage cfg k =
     (if enableCpuUsageState k = 0
      then Inr (k\<lparr>enableCpuUsageState := 1, tickCount := 0\<rparr>)
      else if tickCount k = TICKS_PER_SEC cfg
      then tTaskSchedEnable (k\<lparr>idleMaxCount := idleCount k, idleCount := 0\<rparr>)
      else if TICKS_PER_SEC cfg = 0 then Inl DivideByZero
      else if tickCount k mod TICKS_PER_SEC cfg = 0
      then (if idleMaxCount k = 0 then Inl DivideByZero
            else Inr (k\<lparr>cpuUsage := (1 - idleCount k div idleMaxCount k) * 100,
                         idleCount := 0\<rparr>))
      else Inr k)"

text \<open>
  The whole handler. \<open>tTimerModuleTickNotify\<close> belongs to the timer module and to the
  semaphores, which this file of the kernel only calls: it is a parameter.
\<close>

definition tTaskSystemTickHandler ::
    "tConfig \<Rightarrow> (kernel \<Rightarrow> fault + kernel) \<Rightarrow> kernel \<Rightarrow> fault + kernel" where
  "tTaskSystemTickHandler cfg tTimerModuleTickNotify k =
     (let k1 = tickDelayedList cfg k
      in case tickSlice cfg k1 of
           Inl f \<Rightarrow> Inl f
         | Inr k2 \<Rightarrow>
             (case checkCpuUsage cfg (k2\<lparr>tickCount := tickCount k2 + 1\<rparr>) of
                Inl f \<Rightarrow> Inl f
              | Inr k4 \<Rightarrow> (case tTimerModuleTickNotify k4 of
                             Inl f \<Rightarrow> Inl f
                           | Inr k5 \<Rightarrow> tTaskSched k5)))"

section \<open>Tasks (12.01 tTask.c)\<close>

text \<open>
  A word address lies in the stack region of \<open>stackSize\<close> bytes at \<open>stackBase\<close> when the
  whole word does: \<open>sizeof(tTaskStack)\<close> is 4.
\<close>

definition inStack :: "nat \<Rightarrow> u32 \<Rightarrow> nat \<Rightarrow> bool" where
  "inStack base nbytes a = (base \<le> a \<and> a < base + unat nbytes div 4)"

text \<open>
  \<open>memset(stack, 0, stackSize)\<close> clears \<open>stackSize\<close> bytes: the whole words of the
  region and, when the size is no multiple of 4, the low bytes of the word after them
  (the Cortex-M3 is little-endian).
\<close>

definition memsetZero :: "(nat \<Rightarrow> u32) \<Rightarrow> nat \<Rightarrow> nat \<Rightarrow> (nat \<Rightarrow> u32)" where
  "memsetZero m base nbytes =
     (\<lambda>a. if base \<le> a \<and> a < base + nbytes div 4 then 0
          else if a = base + nbytes div 4 \<and> nbytes mod 4 \<noteq> 0
               then m a AND NOT (mask (8 * (nbytes mod 4)))
          else m a)"

text \<open>The sixteen words of the initial frame, in the order \<open>tTaskInit\<close> pushes them:
  xPSR, PC, LR, R12, R3, R2, R1, R0, R11 down to R4.\<close>

definition initialFrame :: "u32 \<Rightarrow> u32 \<Rightarrow> u32 list" where
  "initialFrame entry param =
     [push_bit 24 1, entry, 0x14, 0x12, 0x3, 0x2, 0x1, param,
      0x11, 0x10, 0x9, 0x8, 0x7, 0x6, 0x5, 0x4]"

text \<open>\<open>*(--stackTop) = v\<close> for each word of a list; a store outside the stack region
  is a fault.\<close>

fun pushWords ::
    "nat \<Rightarrow> u32 \<Rightarrow> (nat \<Rightarrow> u32) \<Rightarrow> nat \<Rightarrow> u32 list \<Rightarrow> fault + ((nat \<Rightarrow> u32) \<times> nat)" where
  "pushWords base nbytes m stackTop [] = Inr (m, stackTop)"
| "pushWords base nbytes m stackTop (v # vs) =
     (if 0 < stackTop \<and> inStack base nbytes (stackTop - 1)
      then pushWords base nbytes (m(stackTop - 1 := v)) (stackTop - 1) vs
      else Inl StackOutOfRange)"

definition tTaskInit ::
    "tConfig \<Rightarrow> kernel \<Rightarrow> nat \<Rightarrow> u32 \<Rightarrow> u32 \<Rightarrow> u32 \<Rightarrow> nat \<Rightarrow> u32 \<Rightarrow> fault + kernel" where
  "tTaskInit cfg k task entry param prio' stack' stackSize' =
     (let m1 = memsetZero (memory k) stack' (unat stackSize');
          stackTop = stack' + unat stackSize' div 4
      in case pushWords stack' stackSize' m1 stackTop (initialFrame entry param) of
           Inl f \<Rightarrow> Inl f
         | Inr (m2, sp) \<Rightarrow>
             (let t = (tasks k task)\<lparr>
                        tTask.stack := sp,
                        stackBase := stack',
                        tTask.stackSize := stackSize',
                        tTask.delayTicks := 0,
                        tTask.prio := prio',
                        tTask.state := TINYOS_TASK_STATE_RDY,
                        tTask.slice := TINYOS_SLICE_MAX cfg,
                        tTask.suspendCount := 0,
                        clean := 0,
                        cleanParam := 0,
                        requestDeleteFlag := 0\<rparr>
              in Inr (tTaskSchedRdy (k\<lparr>memory := m2, tasks := (tasks k)(task := t)\<rparr>) task)))"

definition tTaskSuspend :: "tConfig \<Rightarrow> kernel \<Rightarrow> nat \<Rightarrow> fault + kernel" where
  "tTaskSuspend cfg k task =
     (if tTask.state (tasks k task) AND TINYOS_TASK_STATE_DELAYED cfg = 0
      then (let t1 = (tasks k task)\<lparr>tTask.suspendCount := tTask.suspendCount (tasks k task) + 1\<rparr>;
                k1 = k\<lparr>tasks := (tasks k)(task := t1)\<rparr>
            in if tTask.suspendCount t1 \<le> 1
               then (let t2 = t1\<lparr>tTask.state := tTask.state t1 OR TINYOS_TASK_STATE_SUSPEND cfg\<rparr>;
                         k2 = k1\<lparr>tasks := (tasks k1)(task := t2)\<rparr>;
                         k3 = tTaskSchedUnRdy k2 task
                     in if task = curTask k3 then tTaskSched k3 else Inr k3)
               else Inr k1)
      else Inr k)"

record tTaskInfo =
  delayTicks :: u32
  prio :: u32
  slice :: u32
  state :: u32
  suspendCount :: u32
  stackSize :: u32
  stackFree :: u32

text \<open>
  The loop of \<open>tTaskGetInfo\<close>:
  \<open>while((*stackEnd++) == 0 && (stackEnd <= stackBase + stackSize / sizeof(tTaskStack)))\<close>.
  Each test reads the word at \<open>stackEnd\<close> first and compares the incremented pointer
  afterwards; a read outside the stack region of the task is a fault.
\<close>

function stackFreeLoop :: "kernel \<Rightarrow> tTask \<Rightarrow> nat \<Rightarrow> u32 \<Rightarrow> fault + u32" where
  "stackFreeLoop k t stackEnd free =
     (if inStack (stackBase t) (tTask.stackSize t) stackEnd
      then (if memory k stackEnd = 0
               \<and> stackEnd + 1 \<le> stackBase t + unat (tTask.stackSize t) div 4
            then stackFreeLoop k t (stackEnd + 1) (free + 1)
            else Inr free)
      else Inl StackOutOfRange)"
  by pat_completeness auto
termination
  by (relation "measure (\<lambda>(k, t, stackEnd, free).
        stackBase t + unat (tTask.stackSize t) div 4 - stackEnd)")
     (auto simp: inStack_def)

declare stackFreeLoop.simps [simp del]

definition tTaskGetInfo :: "kernel \<Rightarrow> nat \<Rightarrow> fault + tTaskInfo" where
  "tTaskGetInfo k task =
     (let t = tasks k task
      in case stackFreeLoop k t (stackBase t) 0 of
           Inl f \<Rightarrow> Inl f
         | Inr free \<Rightarrow>
             Inr \<lparr>tTaskInfo.delayTicks = tTask.delayTicks t,
                  tTaskInfo.prio = tTask.prio t,
                  tTaskInfo.slice = tTask.slice t,
                  tTaskInfo.state = tTask.state t,
                  tTaskInfo.suspendCount = tTask.suspendCount t,
                  tTaskInfo.stackSize = tTask.stackSize t,
                  stackFree = free * 4\<rparr>)"

section \<open>The timer module (11.03 tTimer.h, tTimer.c)\<close>

datatype tTimerState =
  tTimerCreated | tTimerStarted | tTimerRunning | tTimerStopped | tTimerDestroyed

record tTimer =
  startDelayTicks :: u32
  durationTicks :: u32
  delayTicks :: u32
  timerFunc :: u32
  arg :: u32
  config :: u32
  state :: tTimerState

definition TIMER_CONFIG_TYPE_HARD :: u32 where
  "TIMER_CONFIG_TYPE_HARD = push_bit 0 1"

definition TIMER_CONFIG_TYPE_SOFT :: u32 where
  "TIMER_CONFIG_TYPE_SOFT = push_bit 0 0"

text \<open>
  The state of the module: the timers by address and the two lists. A callback is
  application code; the model records each call (the function pointer and its
  argument) in \<open>timerFuncCalls\<close>, in the order of the calls, and the callbacks
  themselves do not touch the timers. The semaphore \<open>tTimerProtectSem\<close> that
  \<open>tTimerStart\<close> and \<open>tTimerStop\<close> take around an update of the soft list is a lock: the
  update is one step of the model.
\<close>

record timerModule =
  timers :: "nat \<Rightarrow> tTimer"
  tTimerHardList :: tList
  tTimerSoftList :: tList
  timerFuncCalls :: "(u32 \<times> u32) list"

definition tTimerInit ::
    "timerModule \<Rightarrow> nat \<Rightarrow> u32 \<Rightarrow> u32 \<Rightarrow> u32 \<Rightarrow> u32 \<Rightarrow> u32 \<Rightarrow> timerModule" where
  "tTimerInit tm timer delayTicks' durationTicks' timerFunc' arg' config' =
     (let t1 = (timers tm timer)\<lparr>
                 startDelayTicks := delayTicks',
                 durationTicks := durationTicks',
                 timerFunc := timerFunc',
                 arg := arg',
                 config := config'\<rparr>;
          t2 = (if delayTicks' = 0
                then t1\<lparr>tTimer.delayTicks := durationTicks'\<rparr>
                else t1\<lparr>tTimer.delayTicks := startDelayTicks t1\<rparr>)
      in tm\<lparr>timers := (timers tm)(timer := t2\<lparr>tTimer.state := tTimerCreated\<rparr>)\<rparr>)"

definition tTimerStart :: "timerModule \<Rightarrow> nat \<Rightarrow> timerModule" where
  "tTimerStart tm timer =
     (let t = timers tm timer
      in if tTimer.state t = tTimerCreated \<or> tTimer.state t = tTimerStopped
         then (let t1 = t\<lparr>tTimer.delayTicks :=
                            (if startDelayTicks t \<noteq> 0 then startDelayTicks t
                             else durationTicks t)\<rparr>;
                   t2 = t1\<lparr>tTimer.state := tTimerStarted\<rparr>;
                   tm1 = tm\<lparr>timers := (timers tm)(timer := t2)\<rparr>
               in if config t2 AND TIMER_CONFIG_TYPE_HARD \<noteq> 0
                  then tm1\<lparr>tTimerHardList := tListAddFirst (tTimerHardList tm1) timer\<rparr>
                  else tm1\<lparr>tTimerSoftList := tListAddLast (tTimerSoftList tm1) timer\<rparr>)
         else tm)"

definition tTimerStop :: "timerModule \<Rightarrow> nat \<Rightarrow> timerModule" where
  "tTimerStop tm timer =
     (let t = timers tm timer
      in if tTimer.state t = tTimerStarted \<or> tTimer.state t = tTimerRunning
         then (if config t AND TIMER_CONFIG_TYPE_HARD \<noteq> 0
               then tm\<lparr>tTimerHardList := tListRemove (tTimerHardList tm) timer\<rparr>
               else tm\<lparr>tTimerSoftList := tListRemove (tTimerSoftList tm) timer\<rparr>)
         else tm)"

text \<open>\<open>tTimerCallFuncList\<close> takes a pointer to one of the two lists.\<close>

datatype timerListRef = HardListRef | SoftListRef

definition timerListGet :: "timerModule \<Rightarrow> timerListRef \<Rightarrow> tList" where
  "timerListGet tm l = (case l of HardListRef \<Rightarrow> tTimerHardList tm | SoftListRef \<Rightarrow> tTimerSoftList tm)"

definition timerListSet :: "timerModule \<Rightarrow> timerListRef \<Rightarrow> tList \<Rightarrow> timerModule" where
  "timerListSet tm l ns =
     (case l of HardListRef \<Rightarrow> tm\<lparr>tTimerHardList := ns\<rparr>
              | SoftListRef \<Rightarrow> tm\<lparr>tTimerSoftList := ns\<rparr>)"

text \<open>
  The body of the loop of \<open>tTimerCallFuncList\<close> for one timer. The test
  \<open>(timer->delayTicks == 0) || (--timer->delayTicks == 0)\<close> decrements only when the
  countdown is not 0 already.
\<close>

definition timerCallFuncNode :: "timerModule \<Rightarrow> timerListRef \<Rightarrow> nat \<Rightarrow> timerModule" where
  "timerCallFuncNode tm l timer =
     (let t = timers tm timer;
          t1 = (if tTimer.delayTicks t = 0 then t
                else t\<lparr>tTimer.delayTicks := tTimer.delayTicks t - 1\<rparr>)
      in if tTimer.delayTicks t1 = 0
         then (let t2 = t1\<lparr>tTimer.state := tTimerRunning\<rparr>;
                   tm1 = tm\<lparr>timers := (timers tm)(timer := t2),
                            timerFuncCalls := timerFuncCalls tm @ [(timerFunc t2, arg t2)]\<rparr>;
                   t3 = (timers tm1 timer)\<lparr>tTimer.state := tTimerStarted\<rparr>
               in if durationTicks t3 > 0
                  then tm1\<lparr>timers := (timers tm1)(timer :=
                              t3\<lparr>tTimer.delayTicks := durationTicks t3\<rparr>)\<rparr>
                  else (timerListSet tm1 l (tListRemove (timerListGet tm1 l) timer))
                         \<lparr>timers := (timers tm1)(timer := t3\<lparr>tTimer.state := tTimerStopped\<rparr>)\<rparr>)
         else tm\<lparr>timers := (timers tm)(timer := t1)\<rparr>)"

text \<open>Modelled from the spec: the order of the loop, which is of the same form as the
  loop over the delay list and unlinks nodes in the same way (spec 4.12: the scan
  treats each timer of the list).\<close>

fun timerCallFuncWalk :: "timerModule \<Rightarrow> timerListRef \<Rightarrow> nat list \<Rightarrow> timerModule" where
  "timerCallFuncWalk tm l [] = tm"
| "timerCallFuncWalk tm l (timer # rest) =
     timerCallFuncWalk (timerCallFuncNode tm l timer) l rest"

definition tTimerCallFuncList :: "timerModule \<Rightarrow> timerListRef \<Rightarrow> timerModule" where
  "tTimerCallFuncList tm l = timerCallFuncWalk tm l (timerListGet tm l)"

definition tTimerDestroy :: "timerModule \<Rightarrow> nat \<Rightarrow> timerModule" where
  "tTimerDestroy tm timer =
     (let tm1 = tTimerStop tm timer
      in tm1\<lparr>timers := (timers tm1)(timer := (timers tm1 timer)\<lparr>tTimer.state := tTimerDestroyed\<rparr>)\<rparr>)"

text \<open>What an observer sees of a timer: its state, its countdown, and whether it is on
  the hard and on the soft list.\<close>

definition timerObservable :: "timerModule \<Rightarrow> nat \<Rightarrow> tTimerState \<times> u32 \<times> bool \<times> bool" where
  "timerObservable tm timer =
     (tTimer.state (timers tm timer), tTimer.delayTicks (timers tm timer),
      timer \<in> set (tTimerHardList tm), timer \<in> set (tTimerSoftList tm))"

text \<open>The list a timer belongs on, by the type bit of its configuration.\<close>

definition timerOwnList :: "timerModule \<Rightarrow> nat \<Rightarrow> tList" where
  "timerOwnList tm timer =
     (if config (timers tm timer) AND TIMER_CONFIG_TYPE_HARD \<noteq> 0
      then tTimerHardList tm else tTimerSoftList tm)"

section \<open>Concrete states for the examples\<close>

text \<open>
  C zero-initialises globals: \<open>task0\<close>, \<open>kernel0\<close>, \<open>timer0\<close> and \<open>timerModule0\<close> are the
  all-zero task block, kernel state, timer and timer module. \<open>config0\<close> is a
  configuration for the examples: 32 priorities, a slice of 10 ticks, 100 ticks per
  second, and the state bits \<open>1 << 1\<close> (delayed), \<open>1 << 2\<close> (suspended) and
  \<open>0xFF << 16\<close> (waiting for an event).
\<close>

definition task0 :: tTask where
  "task0 = \<lparr>stack = 0, stackBase = 0, tTask.stackSize = 0, tTask.delayTicks = 0,
     tTask.prio = 0, tTask.state = 0, tTask.slice = 0, tTask.suspendCount = 0, clean = 0,
     cleanParam = 0, requestDeleteFlag = 0, waitEvent = None, eventMsg = 0,
     waitEventResult = tErrorNoError\<rparr>"

definition kernel0 :: kernel where
  "kernel0 = \<lparr>tasks = (\<lambda>_. task0), memory = (\<lambda>_. 0), events = (\<lambda>_. []), curTask = 0,
     nextTask = 0, taskPrioBitMap = 0, taskTable = (\<lambda>_. []), schedLockCounter = 0,
     tTaskDelayedList = [], idleCount = 0, idleMaxCount = 0, tickCount = 0,
     enableCpuUsageState = 0, cpuUsage = 0, tTaskSwitchCalls = 0\<rparr>"

definition config0 :: tConfig where
  "config0 = \<lparr>TINYOS_PRIO_COUNT = 32, TINYOS_SLICE_MAX = 10, TICKS_PER_SEC = 100,
     TINYOS_TASK_STATE_DELAYED = 2, TINYOS_TASK_STATE_SUSPEND = 4,
     TINYOS_TASK_WAIT_MASK = 0xFF0000\<rparr>"

definition timer0 :: tTimer where
  "timer0 = \<lparr>startDelayTicks = 0, durationTicks = 0, tTimer.delayTicks = 0, timerFunc = 0,
     arg = 0, config = 0, tTimer.state = tTimerCreated\<rparr>"

definition timerModule0 :: timerModule where
  "timerModule0 = \<lparr>timers = (\<lambda>_. timer0), tTimerHardList = [], tTimerSoftList = [],
     timerFuncCalls = []\<rparr>"

text \<open>
  The initialisation that \<open>main\<close> runs before it starts the first task:
  \<open>tTaskSchedInit\<close>, \<open>tTaskDelayedInit\<close>, \<open>tTimeTickInit\<close>, \<open>initCpuUsageState\<close> and
  \<open>tTaskInit\<close> of the idle task (here the task block at address 1, entry \<open>0x100\<close>, the
  lowest priority 31 and a stack of 1024 bytes at word address 0).
\<close>

definition mainInit :: "fault + kernel" where
  "mainInit =
     tTaskInit config0
       (initCpuUsageState (tTimeTickInit (tTaskDelayedInit (tTaskSchedInit config0 kernel0))))
       1 0x100 0 31 0 1024"

text \<open>
  States for the time slice: the running task 1 at priority 3 with one tick of its
  slice left, alone on its ready list (\<open>sliceExample\<close>) and ahead of task 2
  (\<open>sliceExample2\<close>).
\<close>

definition sliceExample :: kernel where
  "sliceExample = kernel0\<lparr>curTask := 1,
     tasks := (\<lambda>_. task0)(1 := task0\<lparr>tTask.prio := 3, tTask.slice := 1\<rparr>),
     taskTable := (\<lambda>_. [])(3 := [1]), taskPrioBitMap := 8\<rparr>"

definition sliceExample2 :: kernel where
  "sliceExample2 = kernel0\<lparr>curTask := 1,
     tasks := (\<lambda>_. task0)(1 := task0\<lparr>tTask.prio := 3, tTask.slice := 1\<rparr>,
                            2 := task0\<lparr>tTask.prio := 3, tTask.slice := 10\<rparr>),
     taskTable := (\<lambda>_. [])(3 := [1, 2]), taskPrioBitMap := 8\<rparr>"

text \<open>
  The state of \<open>sliceExample\<close> with a second task of the same priority 3 on the delay
  list, one tick before it wakes: the tick on which task 2 wakes is the tick on which
  the slice of the running task 1 ends.
\<close>

definition wakeExample :: kernel where
  "wakeExample = kernel0\<lparr>curTask := 1,
     tasks := (\<lambda>_. task0)(1 := task0\<lparr>tTask.prio := 3, tTask.slice := 1\<rparr>,
                            2 := task0\<lparr>tTask.prio := 3, tTask.delayTicks := 1,
                                       tTask.state := 2\<rparr>),
     taskTable := (\<lambda>_. [])(3 := [1]), taskPrioBitMap := 8,
     tTaskDelayedList := [2]\<rparr>"

text \<open>A state for the CPU usage: measurement enabled, 200 ticks counted, the idle
  loop counted once in the last second and twice in the calibration second.\<close>

definition cpuExample :: kernel where
  "cpuExample = kernel0\<lparr>enableCpuUsageState := 1, tickCount := 200, idleCount := 1,
     idleMaxCount := 2\<rparr>"

text \<open>A state for the delay list: task 4 (priority 2) waits on event 7 with one tick
  left, task 5 (priority 3) is delayed for five more ticks.\<close>

definition delayExample :: kernel where
  "delayExample = kernel0\<lparr>
     tasks := (\<lambda>_. task0)
       (4 := task0\<lparr>tTask.delayTicks := 1, tTask.prio := 2, tTask.state := 0x10002,
                   waitEvent := Some 7\<rparr>,
        5 := task0\<lparr>tTask.delayTicks := 5, tTask.prio := 3, tTask.state := 2\<rparr>),
     events := (\<lambda>_. [])(7 := [4]),
     tTaskDelayedList := [4, 5]\<rparr>"

text \<open>
  A timer module with three started hard timers: timer 4 is a one-shot with no delay
  (\<open>tTimerStart\<close> gives it the countdown 0), timer 2 has delay 1 and period 5, timer 3
  is a one-shot with delay 4.
\<close>

definition timerExample :: timerModule where
  "timerExample =
     tTimerStart (tTimerInit
       (tTimerStart (tTimerInit
          (tTimerStart (tTimerInit timerModule0 4 0 0 0x200 7 TIMER_CONFIG_TYPE_HARD) 4)
          2 1 5 0x300 8 TIMER_CONFIG_TYPE_HARD) 2)
       3 4 0 0x400 9 TIMER_CONFIG_TYPE_HARD) 3"

section \<open>What one pass of a loop does to one object\<close>

text \<open>
  The two loops (over the delay list in the tick handler, over a timer list in
  \<open>tTimerCallFuncList\<close>) treat each object on their list once. These functions say
  what a pass does to the task block and to the timer; the lemmas below prove that the
  loops compute them.
\<close>

definition taskExpires :: "tTask \<Rightarrow> bool" where
  "taskExpires t = (tTask.delayTicks t - 1 = 0)"

definition taskAfterTick :: "tConfig \<Rightarrow> tTask \<Rightarrow> tTask" where
  "taskAfterTick cfg t =
     (let t1 = t\<lparr>tTask.delayTicks := tTask.delayTicks t - 1\<rparr>
      in if taskExpires t
         then (let t2 = (if waitEvent t \<noteq> None
                         then t1\<lparr>waitEvent := None, eventMsg := 0,
                                 waitEventResult := tErrorTimeOut,
                                 tTask.state := tTask.state t AND NOT (TINYOS_TASK_WAIT_MASK cfg)\<rparr>
                         else t1)
               in t2\<lparr>tTask.state := tTask.state t2 AND NOT (TINYOS_TASK_STATE_DELAYED cfg)\<rparr>)
         else t1)"

definition timerExpires :: "tTimer \<Rightarrow> bool" where
  "timerExpires t = (tTimer.delayTicks t = 0 \<or> tTimer.delayTicks t - 1 = 0)"

definition timerAfterScan :: "tTimer \<Rightarrow> tTimer" where
  "timerAfterScan t =
     (if timerExpires t
      then (if durationTicks t > 0
            then t\<lparr>tTimer.delayTicks := durationTicks t, tTimer.state := tTimerStarted\<rparr>
            else t\<lparr>tTimer.delayTicks := 0, tTimer.state := tTimerStopped\<rparr>)
      else t\<lparr>tTimer.delayTicks := tTimer.delayTicks t - 1\<rparr>)"

section \<open>Facts about the list and bitmap primitives\<close>

lemma upt_32:
  "[0..<32] = [0, 1, 2, 3, 4, 5, 6, 7, 8, 9, 10, 11, 12, 13, 14, 15, 16, 17, 18, 19, 20,
               21, 22, 23, 24, 25, 26, 27, 28, 29, 30, 31]"
  by (simp add: upt_conv_Cons)

lemma tBitMapGetFirstSet_lowest:
  "tBitMapGetFirstSet b = Some p \<Longrightarrow> bit b p \<and> p < 32 \<and> (\<forall>q<p. \<not> bit b q)"
  by (auto simp: tBitMapGetFirstSet_def find_Some_iff)

lemma tBitMapGetFirstSet_None:
  "(tBitMapGetFirstSet b = None) = (b = 0)"
proof
  assume "tBitMapGetFirstSet b = None"
  then have "\<forall>i<32. \<not> bit b i"
    by (simp add: tBitMapGetFirstSet_def find_None_iff)
  then have "\<forall>i. \<not> bit b i"
    using bit_imp_le_length [of b] by fastforce
  then show "b = 0" by (simp add: bit_eq_iff)
next
  assume "b = 0"
  then show "tBitMapGetFirstSet b = None"
    by (simp add: tBitMapGetFirstSet_def find_None_iff)
qed

lemma tListFirst_AddFirst: "tListFirst (tListAddFirst l n) = Some n"
  by (simp add: tListFirst_def tListAddFirst_def)

lemma bit_tBitMapSet: "bit (tBitMapSet b p) q = (bit b q \<or> (q = p \<and> p < 32))"
  by (auto simp: tBitMapSet_def bit_simps)

lemma bit_tBitMapClear: "bit (tBitMapClear b p) q = (bit b q \<and> q \<noteq> p)"
  by (auto simp: tBitMapClear_def bit_simps dest: bit_imp_le_length)

section \<open>The scheduler\<close>

lemma mainInit_ready:
  "\<exists>k. mainInit = Inr k \<and> taskTable k = (\<lambda>_. [])(31 := [1])
       \<and> taskPrioBitMap k = push_bit 31 1"
  unfolding mainInit_def tTaskInit_def
  by (simp add: initialFrame_def inStack_def Let_def tTaskSchedRdy_def tTaskSchedInit_def
      tTaskDelayedInit_def tTimeTickInit_def initCpuUsageState_def kernel0_def config0_def
      tListInit_def tListAddFirst_def tBitMapSet_def task0_def fun_eq_iff)

lemma schedInv_tTaskSchedRdy:
  "TINYOS_PRIO_COUNT cfg \<le> 32 \<Longrightarrow> schedInv cfg k \<Longrightarrow> schedInv cfg (tTaskSchedRdy k task)"
  by (auto simp: schedInv_def list_all_iff tTaskSchedRdy_def Let_def bit_tBitMapSet
      tListAddFirst_def)

lemma schedInv_tTaskSchedUnRdy:
  "schedInv cfg k \<Longrightarrow> schedInv cfg (tTaskSchedUnRdy k task)"
  by (auto simp: schedInv_def list_all_iff tTaskSchedUnRdy_def Let_def bit_tBitMapClear
      tListRemove_def tListCount_def)

lemma schedInv_tTaskSchedRemove:
  "schedInv cfg k \<Longrightarrow> schedInv cfg (tTaskSchedRemove k task)"
  by (auto simp: schedInv_def list_all_iff tTaskSchedRemove_def Let_def bit_tBitMapClear
      tListRemove_def tListCount_def)

lemma tTaskSched_ready_set:
  "tTaskSched k = Inr k' \<Longrightarrow> taskTable k' = taskTable k \<and> taskPrioBitMap k' = taskPrioBitMap k"
  by (auto simp: tTaskSched_def tTaskSwitch_def split: if_splits option.splits)

lemma schedInv_tTaskSchedEnable:
  "schedInv cfg k \<Longrightarrow> tTaskSchedEnable k = Inr k' \<Longrightarrow> schedInv cfg k'"
  by (auto simp: tTaskSchedEnable_def Let_def schedInv_def split: if_splits
      dest!: tTaskSched_ready_set)

lemma tTaskSchedDisable_breaks_schedInv:
  "p < TINYOS_PRIO_COUNT cfg \<Longrightarrow> taskTable k p \<noteq> [] \<Longrightarrow> \<not> schedInv cfg (tTaskSchedDisable k)"
  by (auto simp: schedInv_def list_all_iff tTaskSchedDisable_def Let_def tBitMapInit_def)

text \<open>
  C1. The claim: in every reachable state the ready list of a priority is non-empty
  exactly when the bit of the priority is set in \<open>taskPrioBitMap\<close>, and every scheduler
  operation, \<open>tTaskSchedDisable\<close> among them, preserves this. The code of
  \<open>tTaskSchedDisable\<close> calls \<open>tBitMapInit\<close> on the bitmap: the invariant holds in the
  state \<open>main\<close> builds (the idle task ready at priority 31) and is lost by the call of
  \<open>tTaskSchedDisable\<close> with which the idle task begins, as it is by every call in a
  state with a ready task. The other four operations preserve it (the lemmas above).
\<close>

theorem tTaskSchedDisable_loses_schedInv:
  "\<exists>k. mainInit = Inr k \<and> schedInv config0 k \<and> \<not> schedInv config0 (tTaskSchedDisable k)"
proof -
  obtain k where k: "mainInit = Inr k" "taskTable k = (\<lambda>_. [])(31 := [1])"
      "taskPrioBitMap k = push_bit 31 1"
    using mainInit_ready by blast
  have before: "schedInv config0 k"
    unfolding schedInv_def using k
    by (simp add: config0_def upt_32 bit_push_bit_iff bit_1_iff)
  have after: "\<not> schedInv config0 (tTaskSchedDisable k)"
    unfolding schedInv_def tTaskSchedDisable_def using k
    by (simp add: config0_def upt_32 Let_def tBitMapInit_def)
  show ?thesis using k before after by blast
qed

text \<open>
  C4. \<open>tTaskSched\<close> leaves the kernel state as it is while \<open>schedLockCounter > 0\<close>.
  Otherwise, with \<open>t\<close> the head of \<open>taskTable[firstSet(taskPrioBitMap)]\<close>: when \<open>t\<close> is
  not \<open>curTask\<close>, \<open>nextTask\<close> becomes \<open>t\<close> and the context switch is triggered (one more
  call of \<open>tTaskSwitch\<close>), and nothing else changes; when \<open>t\<close> is \<open>curTask\<close>, the state
  is unchanged, so \<open>nextTask\<close> keeps its value and no switch is triggered.
\<close>

theorem tTaskSched_effect:
  "(0 < schedLockCounter k \<longrightarrow> tTaskSched k = Inr k) \<and>
   (schedLockCounter k = 0 \<and> tBitMapGetFirstSet (taskPrioBitMap k) = Some p
      \<and> tListFirst (taskTable k p) = Some t \<longrightarrow>
      tTaskHighestReady k = Some t \<and>
      (t \<noteq> curTask k \<longrightarrow>
         tTaskSched k = Inr (k\<lparr>nextTask := t, tTaskSwitchCalls := Suc (tTaskSwitchCalls k)\<rparr>)) \<and>
      (t = curTask k \<longrightarrow> tTaskSched k = Inr k))"
  by (simp add: tTaskSched_def tTaskHighestReady_def tTaskSwitch_def)

theorem tTaskSched_effect_witness:
  "tTaskSched (kernel0\<lparr>schedLockCounter := 2\<rparr>) = Inr (kernel0\<lparr>schedLockCounter := 2\<rparr>) \<and>
   tTaskSched (kernel0\<lparr>taskPrioBitMap := 40, taskTable := (\<lambda>_. [])(3 := [7, 8], 5 := [9])\<rparr>)
     = Inr (kernel0\<lparr>taskPrioBitMap := 40, taskTable := (\<lambda>_. [])(3 := [7, 8], 5 := [9]),
                    nextTask := 7, tTaskSwitchCalls := 1\<rparr>) \<and>
   tTaskSched (kernel0\<lparr>curTask := 7, taskPrioBitMap := 40,
                       taskTable := (\<lambda>_. [])(3 := [7, 8], 5 := [9])\<rparr>)
     = Inr (kernel0\<lparr>curTask := 7, taskPrioBitMap := 40,
                    taskTable := (\<lambda>_. [])(3 := [7, 8], 5 := [9])\<rparr>)"
  using tTaskSched_effect [of "kernel0\<lparr>schedLockCounter := 2\<rparr>"]
    tTaskSched_effect [of "kernel0\<lparr>taskPrioBitMap := 40,
      taskTable := (\<lambda>_. [])(3 := [7, 8], 5 := [9])\<rparr>" 3 7]
    tTaskSched_effect [of "kernel0\<lparr>curTask := 7, taskPrioBitMap := 40,
      taskTable := (\<lambda>_. [])(3 := [7, 8], 5 := [9])\<rparr>" 3 7]
  by (simp add: kernel0_def tBitMapGetFirstSet_def upt_32 tListFirst_def)

section \<open>The tick handler\<close>

lemma tickDelayedNode_tasks:
  "tasks (tickDelayedNode cfg k x) = (tasks k)(x := taskAfterTick cfg (tasks k x))"
  by (auto simp: tickDelayedNode_def taskAfterTick_def taskExpires_def Let_def
      tEventRemoveTask_def tTimeTaskWakeUp_def tTaskSchedRdy_def split: option.splits)

lemma tickDelayedNode_delayed:
  "tTaskDelayedList (tickDelayedNode cfg k x) =
     (if taskExpires (tasks k x) then removeAll x (tTaskDelayedList k) else tTaskDelayedList k)"
  by (auto simp: tickDelayedNode_def taskExpires_def Let_def tEventRemoveTask_def
      tTimeTaskWakeUp_def tTaskSchedRdy_def tListRemove_def split: option.splits)

lemma tickDelayedNode_events:
  "events (tickDelayedNode cfg k x) e =
     (if taskExpires (tasks k x) \<and> waitEvent (tasks k x) = Some e
      then removeAll x (events k e) else events k e)"
  by (auto simp: tickDelayedNode_def taskExpires_def Let_def tEventRemoveTask_def
      tTimeTaskWakeUp_def tTaskSchedRdy_def tListRemove_def split: option.splits)

lemma tickDelayedNode_table:
  "taskTable (tickDelayedNode cfg k x) p =
     (if taskExpires (tasks k x) \<and> unat (tTask.prio (tasks k x)) = p
      then x # taskTable k p else taskTable k p)"
  by (auto simp: tickDelayedNode_def taskExpires_def Let_def tEventRemoveTask_def
      tTimeTaskWakeUp_def tTaskSchedRdy_def tListAddFirst_def split: option.splits)

lemma tickDelayedWalk_tasks:
  "distinct ts \<Longrightarrow> tasks (tickDelayedWalk cfg k ts) y =
     (if y \<in> set ts then taskAfterTick cfg (tasks k y) else tasks k y)"
  by (induction ts arbitrary: k) (auto simp: tickDelayedNode_tasks)

lemma tickDelayedWalk_delayed:
  "distinct ts \<Longrightarrow> tTaskDelayedList (tickDelayedWalk cfg k ts) =
     filter (\<lambda>y. \<not> (y \<in> set ts \<and> taskExpires (tasks k y))) (tTaskDelayedList k)"
proof (induction ts arbitrary: k)
  case Nil
  then show ?case by simp
next
  case (Cons x ts)
  have d: "distinct ts" "x \<notin> set ts" using Cons.prems by simp_all
  have same: "\<And>y. y \<in> set ts \<Longrightarrow> tasks (tickDelayedNode cfg k x) y = tasks k y"
    using d by (auto simp: tickDelayedNode_tasks)
  have "tTaskDelayedList (tickDelayedWalk cfg k (x # ts)) =
      filter (\<lambda>y. \<not> (y \<in> set ts \<and> taskExpires (tasks k y)))
        (tTaskDelayedList (tickDelayedNode cfg k x))"
    using Cons.IH [OF d(1), of "tickDelayedNode cfg k x"] same
    by (simp cong: filter_cong conj_cong)
  then show ?case
    by (auto simp: tickDelayedNode_delayed removeAll_filter_not_eq intro!: filter_cong)
qed

lemma tickDelayedWalk_events:
  "distinct ts \<Longrightarrow> events (tickDelayedWalk cfg k ts) e =
     filter (\<lambda>y. \<not> (y \<in> set ts \<and> taskExpires (tasks k y) \<and> waitEvent (tasks k y) = Some e))
       (events k e)"
proof (induction ts arbitrary: k)
  case Nil
  then show ?case by simp
next
  case (Cons x ts)
  have d: "distinct ts" "x \<notin> set ts" using Cons.prems by simp_all
  have same: "\<And>y. y \<in> set ts \<Longrightarrow> tasks (tickDelayedNode cfg k x) y = tasks k y"
    using d by (auto simp: tickDelayedNode_tasks)
  have "events (tickDelayedWalk cfg k (x # ts)) e =
      filter (\<lambda>y. \<not> (y \<in> set ts \<and> taskExpires (tasks k y) \<and> waitEvent (tasks k y) = Some e))
        (events (tickDelayedNode cfg k x) e)"
    using Cons.IH [OF d(1), of "tickDelayedNode cfg k x"] same
    by (simp cong: filter_cong conj_cong)
  then show ?case
    by (auto simp: tickDelayedNode_events removeAll_filter_not_eq intro!: filter_cong)
qed

lemma tickDelayedWalk_table:
  "distinct ts \<Longrightarrow> taskTable (tickDelayedWalk cfg k ts) p =
     rev (filter (\<lambda>y. taskExpires (tasks k y) \<and> unat (tTask.prio (tasks k y)) = p) ts)
       @ taskTable k p"
proof (induction ts arbitrary: k)
  case Nil
  then show ?case by simp
next
  case (Cons x ts)
  have d: "distinct ts" "x \<notin> set ts" using Cons.prems by simp_all
  have same: "\<And>y. y \<in> set ts \<Longrightarrow> tasks (tickDelayedNode cfg k x) y = tasks k y"
    using d by (auto simp: tickDelayedNode_tasks)
  have "filter (\<lambda>y. taskExpires (tasks (tickDelayedNode cfg k x) y)
                  \<and> unat (tTask.prio (tasks (tickDelayedNode cfg k x) y)) = p) ts
      = filter (\<lambda>y. taskExpires (tasks k y) \<and> unat (tTask.prio (tasks k y)) = p) ts"
    using same by (simp cong: filter_cong)
  then show ?case
    using Cons.IH [OF d(1), of "tickDelayedNode cfg k x"] by (simp add: tickDelayedNode_table)
qed

text \<open>
  The loop over the delay list, the first step of the handler, with the tasks of
  \<open>tTaskDelayedList\<close> each linked once. In the state the loop leaves: every task of the
  list has its \<open>delayTicks\<close> decremented by one. A task whose count reaches 0 is off
  the wait list of the event it waited on, with result \<open>tErrorTimeOut\<close>, when it had a
  \<open>waitEvent\<close>; it is off the delay list, with the DELAYED bit of its state clear; and
  it is on the ready list of its priority. Every other delayed task is still on the
  delay list, changed in its decremented count only. The delay list keeps the tasks
  that did not expire, in their order; each ready list gains the expired tasks of its
  priority at its head.
\<close>

theorem tickDelayedList_effect:
  assumes "distinct (tTaskDelayedList k)" and "task \<in> set (tTaskDelayedList k)"
  shows "(let t = tasks k task; k' = tickDelayedList cfg k; t' = tasks k' task
          in tTask.delayTicks t' = tTask.delayTicks t - 1 \<and>
             (tTask.delayTicks t - 1 = 0 \<longrightarrow>
                (\<forall>e. waitEvent t = Some e \<longrightarrow>
                     task \<notin> set (events k' e) \<and> waitEventResult t' = tErrorTimeOut
                     \<and> waitEvent t' = None) \<and>
                task \<notin> set (tTaskDelayedList k') \<and>
                tTask.state t' AND TINYOS_TASK_STATE_DELAYED cfg = 0 \<and>
                task \<in> set (taskTable k' (unat (tTask.prio t)))) \<and>
             (tTask.delayTicks t - 1 \<noteq> 0 \<longrightarrow>
                task \<in> set (tTaskDelayedList k') \<and>
                t' = t\<lparr>tTask.delayTicks := tTask.delayTicks t - 1\<rparr>) \<and>
             tTaskDelayedList k' =
               filter (\<lambda>y. tTask.delayTicks (tasks k y) - 1 \<noteq> 0) (tTaskDelayedList k) \<and>
             (\<forall>p. taskTable k' p =
                rev (filter (\<lambda>y. tTask.delayTicks (tasks k y) - 1 = 0
                                \<and> unat (tTask.prio (tasks k y)) = p) (tTaskDelayedList k))
                  @ taskTable k p))"
proof -
  let ?D = "tTaskDelayedList k"
  have dl: "tTaskDelayedList (tickDelayedList cfg k) =
      filter (\<lambda>y. tTask.delayTicks (tasks k y) - 1 \<noteq> 0) ?D"
    unfolding tickDelayedList_def using assms(1)
    by (auto simp: tickDelayedWalk_delayed taskExpires_def intro!: filter_cong)
  have tk: "tasks (tickDelayedList cfg k) task = taskAfterTick cfg (tasks k task)"
    unfolding tickDelayedList_def using assms by (simp add: tickDelayedWalk_tasks)
  have ev: "\<And>e. events (tickDelayedList cfg k) e =
      filter (\<lambda>y. \<not> (y \<in> set ?D \<and> taskExpires (tasks k y) \<and> waitEvent (tasks k y) = Some e))
        (events k e)"
    unfolding tickDelayedList_def using assms(1) by (simp add: tickDelayedWalk_events)
  have tb: "\<And>p. taskTable (tickDelayedList cfg k) p =
      rev (filter (\<lambda>y. tTask.delayTicks (tasks k y) - 1 = 0
                      \<and> unat (tTask.prio (tasks k y)) = p) ?D) @ taskTable k p"
    unfolding tickDelayedList_def using assms(1)
    by (simp add: tickDelayedWalk_table taskExpires_def)
  show ?thesis
    using assms(2)
    by (simp add: Let_def dl tk ev tb taskAfterTick_def taskExpires_def and.assoc)
qed

theorem tickDelayedList_effect_witness:
  "distinct (tTaskDelayedList delayExample) \<and>
   4 \<in> set (tTaskDelayedList delayExample) \<and> 5 \<in> set (tTaskDelayedList delayExample) \<and>
   tTask.delayTicks (tasks delayExample 4) - 1 = 0 \<and> waitEvent (tasks delayExample 4) = Some 7 \<and>
   tTask.delayTicks (tasks (tickDelayedList config0 delayExample) 4) = 0 \<and>
   4 \<notin> set (events (tickDelayedList config0 delayExample) 7) \<and>
   waitEventResult (tasks (tickDelayedList config0 delayExample) 4) = tErrorTimeOut \<and>
   4 \<notin> set (tTaskDelayedList (tickDelayedList config0 delayExample)) \<and>
   tTask.state (tasks (tickDelayedList config0 delayExample) 4)
     AND TINYOS_TASK_STATE_DELAYED config0 = 0 \<and>
   taskTable (tickDelayedList config0 delayExample) 2 = [4] \<and>
   tTask.delayTicks (tasks delayExample 5) - 1 \<noteq> 0 \<and>
   tTask.delayTicks (tasks (tickDelayedList config0 delayExample) 5) = 4 \<and>
   tTaskDelayedList (tickDelayedList config0 delayExample) = [5]"
proof -
  have d: "distinct (tTaskDelayedList delayExample)"
    by (simp add: delayExample_def kernel0_def)
  have m: "4 \<in> set (tTaskDelayedList delayExample)" "5 \<in> set (tTaskDelayedList delayExample)"
    by (simp_all add: delayExample_def kernel0_def)
  have v: "tasks delayExample 4 = task0\<lparr>tTask.delayTicks := 1, tTask.prio := 2,
      tTask.state := 0x10002, waitEvent := Some 7\<rparr>"
    "tasks delayExample 5 = task0\<lparr>tTask.delayTicks := 5, tTask.prio := 3, tTask.state := 2\<rparr>"
    "tTaskDelayedList delayExample = [4, 5]"
    "taskTable delayExample = (\<lambda>_. [])"
    by (simp_all add: delayExample_def kernel0_def)
  show ?thesis
    using d m tickDelayedList_effect [OF d m(1), of config0]
      tickDelayedList_effect [OF d m(2), of config0]
    by (simp add: Let_def v task0_def)
qed

text \<open>When the slice of \<open>curTask\<close> does not end on the tick, the time-slice step writes
  the decremented slice and nothing else: the lists are as the loop left them.\<close>

lemma tickSlice_no_expiry:
  "tTask.slice (tasks k (curTask k)) - 1 \<noteq> 0 \<Longrightarrow>
   tickSlice cfg k = Inr (k\<lparr>tasks := (tasks k)(curTask k :=
      (tasks k (curTask k))\<lparr>tTask.slice := tTask.slice (tasks k (curTask k)) - 1\<rparr>)\<rparr>)"
  by (simp add: tickSlice_def Let_def)

text \<open>When it ends and \<open>curTask\<close> is linked behind the head of its ready list, the
  step unlinks the head and links the node of \<open>curTask\<close>, which is still linked.\<close>

lemma tickSlice_behind_head:
  "tTask.slice (tasks k (curTask k)) - 1 = 0 \<Longrightarrow>
   taskTable k (unat (tTask.prio (tasks k (curTask k)))) = x # rest \<Longrightarrow>
   curTask k \<in> set rest \<Longrightarrow> tickSlice cfg k = Inl ListCorrupted"
  by (simp add: tickSlice_def Let_def tListCount_def tListRemoveFirst_def)

text \<open>
  C2. The claim: on every invocation of the tick handler each task of the delay list
  whose \<open>delayTicks\<close> reaches 0 is (a) off its event's wait list with result TIMEOUT,
  (b) off the delay list with the DELAYED bit clear, and (c) added to the ready list of
  its priority. The loop of the handler does this (\<open>tickDelayedList_effect\<close>), and it
  links the woken task at the head of its ready list. The time-slice step that follows
  in the same invocation removes the first node of the ready list of \<open>curTask\<close> and
  links \<open>curTask\<close> at the end. In \<open>wakeExample\<close> task 2 wakes on the tick on which the
  slice of the running task 1, of the same priority 3, ends: the loop leaves the ready
  list \<open>[2, 1]\<close>, the time-slice step unlinks its first node, the woken task 2, and links
  the node of task 1, which is still on the list. The invocation ends with task 2 on
  no ready list and the list corrupted; whatever \<open>tTimerModuleTickNotify\<close> does, it is
  not reached in the model.
\<close>

theorem tTaskSystemTickHandler_unlinks_woken_task:
  "tTaskDelayedList wakeExample = [2] \<and>
   tTask.delayTicks (tasks wakeExample 2) - 1 = 0 \<and>
   taskTable wakeExample 3 = [1] \<and>
   taskTable (tickDelayedList config0 wakeExample) 3 = [2, 1] \<and>
   curTask (tickDelayedList config0 wakeExample) = 1 \<and>
   tListRemoveFirst (taskTable (tickDelayedList config0 wakeExample) 3) = [1] \<and>
   tickSlice config0 (tickDelayedList config0 wakeExample) = Inl ListCorrupted \<and>
   tTaskSystemTickHandler config0 tTimerModuleTickNotify wakeExample = Inl ListCorrupted"
  by (simp add: wakeExample_def kernel0_def task0_def config0_def tTaskSystemTickHandler_def
      tickDelayedList_def tickDelayedNode_def tTimeTaskWakeUp_def tTaskSchedRdy_def
      tickSlice_def Let_def tListCount_def tListRemoveFirst_def tListRemove_def
      tListAddFirst_def tBitMapSet_def)

text \<open>
  C3, as stated: on a tick where the slice of \<open>curTask\<close> decrements to 0, the head of
  its ready list moves to the tail and the slice is reset to \<open>TINYOS_SLICE_MAX\<close> exactly
  when the list has at least 2 entries; a task alone at its priority keeps its list and
  its slice unchanged. The code tests \<open>tListCount(...) > 0\<close>: for a task alone on its
  list the slice is reset all the same.
\<close>

theorem tickSlice_single_task_counterexample:
  "taskTable sliceExample 3 = [1] \<and> curTask sliceExample = 1 \<and>
   unat (tTask.prio (tasks sliceExample 1)) = 3 \<and>
   tTask.slice (tasks sliceExample 1) - 1 = 0 \<and>
   tickSlice config0 sliceExample =
     Inr (sliceExample\<lparr>tasks := (\<lambda>_. task0)(1 := task0\<lparr>tTask.prio := 3,
            tTask.slice := TINYOS_SLICE_MAX config0\<rparr>)\<rparr>) \<and>
   TINYOS_SLICE_MAX config0 \<noteq> 0 \<and>
   TINYOS_SLICE_MAX config0 \<noteq> tTask.slice (tasks sliceExample 1)"
  by (simp add: sliceExample_def tickSlice_def config0_def kernel0_def task0_def Let_def
      tListCount_def tListRemoveFirst_def tListAddLast_def)

text \<open>
  C3, amended: on a tick where the slice of \<open>curTask\<close> decrements to 0 and \<open>curTask\<close>
  is the head of \<open>taskTable[curTask.prio]\<close> (linked there once), the head is moved to the
  tail and its slice is reset to \<open>TINYOS_SLICE_MAX\<close>, whenever the list has at least 1
  entry; with \<open>curTask\<close> alone on the list the list is the same afterwards, and the
  slice is reset. When the list is empty it stays empty and the slice stays 0. In each
  case nothing else of the kernel state changes.
\<close>

theorem tickSlice_rotation:
  "tTask.slice (tasks k (curTask k)) - 1 = 0 \<Longrightarrow>
   (let c = curTask k; t = tasks k c; p = unat (tTask.prio t)
    in (\<forall>rest. taskTable k p = c # rest \<and> c \<notin> set rest \<longrightarrow>
          tickSlice cfg k =
            Inr (k\<lparr>tasks := (tasks k)(c := t\<lparr>tTask.slice := TINYOS_SLICE_MAX cfg\<rparr>),
                   taskTable := (taskTable k)(p := rest @ [c])\<rparr>)) \<and>
       (taskTable k p = [c] \<longrightarrow>
          tickSlice cfg k =
            Inr (k\<lparr>tasks := (tasks k)(c := t\<lparr>tTask.slice := TINYOS_SLICE_MAX cfg\<rparr>)\<rparr>)) \<and>
       (taskTable k p = [] \<longrightarrow>
          tickSlice cfg k = Inr (k\<lparr>tasks := (tasks k)(c := t\<lparr>tTask.slice := 0\<rparr>)\<rparr>)))"
  by (auto simp: tickSlice_def Let_def tListCount_def tListRemoveFirst_def tListAddLast_def
      fun_upd_idem)

theorem tickSlice_rotation_witness:
  "tTask.slice (tasks sliceExample2 (curTask sliceExample2)) - 1 = 0 \<and>
   taskTable sliceExample2 3 = [1, 2] \<and>
   tickSlice config0 sliceExample2 =
     Inr (sliceExample2\<lparr>
           tasks := (tasks sliceExample2)(1 := task0\<lparr>tTask.prio := 3, tTask.slice := 10\<rparr>),
           taskTable := (\<lambda>_. [])(3 := [2, 1])\<rparr>) \<and>
   tTask.slice (tasks sliceExample (curTask sliceExample)) - 1 = 0 \<and>
   taskTable sliceExample 3 = [1] \<and>
   tickSlice config0 sliceExample =
     Inr (sliceExample\<lparr>
           tasks := (tasks sliceExample)(1 := task0\<lparr>tTask.prio := 3, tTask.slice := 10\<rparr>)\<rparr>) \<and>
   tTask.slice (tasks (sliceExample\<lparr>taskTable := (\<lambda>_. [])\<rparr>)
      (curTask (sliceExample\<lparr>taskTable := (\<lambda>_. [])\<rparr>))) - 1 = 0 \<and>
   tickSlice config0 (sliceExample\<lparr>taskTable := (\<lambda>_. [])\<rparr>) =
     Inr (sliceExample\<lparr>taskTable := (\<lambda>_. []),
           tasks := (tasks sliceExample)(1 := task0\<lparr>tTask.prio := 3, tTask.slice := 0\<rparr>)\<rparr>)"
proof -
  have h1: "tTask.slice (tasks sliceExample2 (curTask sliceExample2)) - 1 = 0"
    by (simp add: sliceExample2_def kernel0_def)
  have h2: "tTask.slice (tasks sliceExample (curTask sliceExample)) - 1 = 0"
    by (simp add: sliceExample_def kernel0_def)
  have h3: "tTask.slice (tasks (sliceExample\<lparr>taskTable := (\<lambda>_. [])\<rparr>)
      (curTask (sliceExample\<lparr>taskTable := (\<lambda>_. [])\<rparr>))) - 1 = 0"
    by (simp add: sliceExample_def kernel0_def)
  show ?thesis
    using h1 h2 h3 tickSlice_rotation [OF h1, of config0] tickSlice_rotation [OF h2, of config0]
      tickSlice_rotation [OF h3, of config0]
    by (simp add: Let_def sliceExample_def sliceExample2_def kernel0_def config0_def)
qed

text \<open>What \<open>checkCpuUsage\<close> does at a later multiple of \<open>TICKS_PER_SEC\<close>: the whole
  result state, with the value it stores; below the calibration count that value
  is 100.\<close>

lemma checkCpuUsage_periodic_value:
  "enableCpuUsageState k \<noteq> 0 \<Longrightarrow> tickCount k \<noteq> TICKS_PER_SEC cfg \<Longrightarrow>
   TICKS_PER_SEC cfg \<noteq> 0 \<Longrightarrow> tickCount k mod TICKS_PER_SEC cfg = 0 \<Longrightarrow>
   checkCpuUsage cfg k =
     (if idleMaxCount k = 0 then Inl DivideByZero
      else Inr (k\<lparr>cpuUsage := (1 - idleCount k div idleMaxCount k) * 100, idleCount := 0\<rparr>))"
  by (simp add: checkCpuUsage_def)

lemma checkCpuUsage_below_calibration:
  "enableCpuUsageState k \<noteq> 0 \<Longrightarrow> tickCount k \<noteq> TICKS_PER_SEC cfg \<Longrightarrow>
   TICKS_PER_SEC cfg \<noteq> 0 \<Longrightarrow> tickCount k mod TICKS_PER_SEC cfg = 0 \<Longrightarrow>
   idleCount k < idleMaxCount k \<Longrightarrow>
   checkCpuUsage cfg k = Inr (k\<lparr>cpuUsage := 100, idleCount := 0\<rparr>)"
  by (auto simp: checkCpuUsage_def div_word_less)

text \<open>
  C5. The claim: at each later multiple of \<open>TICKS_PER_SEC\<close>, \<open>checkCpuUsage\<close> sets
  \<open>cpuUsage\<close> to exactly \<open>(1 - idleCount / idleMaxCount) * 100\<close> as a ratio of the two
  counters, then resets \<open>idleCount\<close>, and evaluates the ratio only when
  \<open>idleMaxCount > 0\<close>. The code divides the two \<open>uint32_t\<close> counters before anything
  is converted to \<open>float\<close>: with \<open>idleCount = 1\<close> and \<open>idleMaxCount = 2\<close> the ratio gives
  50 and the code stores 100, as it does for every idle count below the calibration
  count. The code has no test of \<open>idleMaxCount\<close>: with \<open>idleMaxCount = 0\<close> it divides
  by zero.
\<close>

theorem checkCpuUsage_truncates_ratio:
  "checkCpuUsage config0 cpuExample = Inr (cpuExample\<lparr>cpuUsage := 100, idleCount := 0\<rparr>) \<and>
   (1 - real (unat (idleCount cpuExample)) / real (unat (idleMaxCount cpuExample))) * 100 = 50 \<and>
   idleMaxCount (cpuExample\<lparr>idleMaxCount := 0\<rparr>) = 0 \<and>
   checkCpuUsage config0 (cpuExample\<lparr>idleMaxCount := 0\<rparr>) = Inl DivideByZero"
  by (simp add: checkCpuUsage_def cpuExample_def config0_def kernel0_def)

section \<open>Tasks\<close>

lemma pushWords_in_range:
  "base + length vs \<le> sp \<Longrightarrow> sp \<le> base + unat nbytes div 4 \<Longrightarrow>
   \<exists>m'. pushWords base nbytes m sp vs = Inr (m', sp - length vs)
        \<and> (\<forall>a. a < sp - length vs \<longrightarrow> m' a = m a)
        \<and> (vs \<noteq> [] \<longrightarrow> m' (sp - length vs) = last vs)"
proof (induction vs arbitrary: m sp)
  case Nil
  then show ?case by simp
next
  case (Cons v vs)
  have r: "0 < sp \<and> inStack base nbytes (sp - 1)"
    using Cons.prems unfolding inStack_def by (simp, arith)
  have "base + length vs \<le> sp - 1" "sp - 1 \<le> base + unat nbytes div 4"
    using Cons.prems by simp_all
  from Cons.IH [OF this, of "m(sp - 1 := v)"]
  obtain m' where m':
    "pushWords base nbytes (m(sp - 1 := v)) (sp - 1) vs = Inr (m', sp - 1 - length vs)"
    "\<forall>a. a < sp - 1 - length vs \<longrightarrow> m' a = (m(sp - 1 := v)) a"
    "vs \<noteq> [] \<longrightarrow> m' (sp - 1 - length vs) = last vs"
    by blast
  have "vs = [] \<Longrightarrow> m' = m(sp - 1 := v)" using m'(1) by simp
  then show ?case using r m' by auto
qed

text \<open>
  C8. After \<open>tTaskInit(task, entry, param, prio, stack, stackSize)\<close>, for a stack with
  room for the sixteen words of the initial frame and a priority below
  \<open>TINYOS_PRIO_COUNT\<close> (at most 32, the width of the bitmap): every word
  of the stack region below the frame holds the sentinel 0; the task has state READY,
  slice \<open>TINYOS_SLICE_MAX\<close>, suspend count 0, delay 0, null \<open>clean\<close> and \<open>cleanParam\<close>
  and \<open>requestDeleteFlag\<close> 0; and the task is the head of \<open>taskTable[prio]\<close>, with bit
  \<open>prio\<close> set in \<open>taskPrioBitMap\<close>. The saved stack pointer is the bottom of the frame.
\<close>

theorem tTaskInit_result:
  assumes "16 \<le> unat stackSize' div 4"
    and "unat prio' < TINYOS_PRIO_COUNT cfg" and "TINYOS_PRIO_COUNT cfg \<le> 32"
  shows "\<exists>k'. tTaskInit cfg k task entry param prio' stack' stackSize' = Inr k' \<and>
      (\<forall>a. stack' \<le> a \<and> a + 16 < stack' + unat stackSize' div 4 \<longrightarrow> memory k' a = 0) \<and>
      tTask.stack (tasks k' task) + 16 = stack' + unat stackSize' div 4 \<and>
      tTask.state (tasks k' task) = TINYOS_TASK_STATE_RDY \<and>
      tTask.slice (tasks k' task) = TINYOS_SLICE_MAX cfg \<and>
      tTask.suspendCount (tasks k' task) = 0 \<and>
      tTask.delayTicks (tasks k' task) = 0 \<and>
      clean (tasks k' task) = 0 \<and>
      cleanParam (tasks k' task) = 0 \<and>
      requestDeleteFlag (tasks k' task) = 0 \<and>
      tTask.prio (tasks k' task) = prio' \<and>
      tListFirst (taskTable k' (unat prio')) = Some task \<and>
      bit (taskPrioBitMap k') (unat prio')"
proof -
  let ?n = "unat stackSize' div 4"
  let ?m1 = "memsetZero (memory k) stack' (unat stackSize')"
  have fr: "length (initialFrame entry param) = 16"
    by (simp add: initialFrame_def)
  have "stack' + length (initialFrame entry param) \<le> stack' + ?n"
    using assms(1) by (simp add: fr)
  from pushWords_in_range [OF this, of stackSize' ?m1]
  obtain m2 where m2:
    "pushWords stack' stackSize' ?m1 (stack' + ?n) (initialFrame entry param)
       = Inr (m2, stack' + ?n - 16)"
    "\<forall>a. a < stack' + ?n - 16 \<longrightarrow> m2 a = ?m1 a"
    by (auto simp: fr)
  have z: "\<forall>a. stack' \<le> a \<and> a + 16 < stack' + ?n \<longrightarrow> m2 a = 0"
    using m2(2) by (auto simp: memsetZero_def)
  have p32: "unat prio' < 32" using assms(2,3) by simp
  show ?thesis
    using m2(1) z p32 assms(1)
    by (simp add: tTaskInit_def Let_def tTaskSchedRdy_def tListFirst_AddFirst bit_tBitMapSet)
qed

theorem tTaskInit_result_witness:
  "16 \<le> unat (1024 :: u32) div 4 \<and> unat (31 :: u32) < TINYOS_PRIO_COUNT config0 \<and>
   TINYOS_PRIO_COUNT config0 \<le> 32 \<and>
   (\<exists>k'. mainInit = Inr k' \<and>
      (\<forall>a. 0 \<le> a \<and> a + 16 < 0 + unat (1024 :: u32) div 4 \<longrightarrow> memory k' a = 0) \<and>
      tTask.state (tasks k' 1) = TINYOS_TASK_STATE_RDY \<and>
      tTask.slice (tasks k' 1) = 10 \<and>
      tListFirst (taskTable k' 31) = Some 1 \<and>
      bit (taskPrioBitMap k') 31)"
proof -
  have h1: "16 \<le> unat (1024 :: u32) div 4" by simp
  have h2: "unat (31 :: u32) < TINYOS_PRIO_COUNT config0" by (simp add: config0_def)
  have h3: "TINYOS_PRIO_COUNT config0 \<le> 32" by (simp add: config0_def)
  show ?thesis
    using h1 h2 h3 tTaskInit_result [OF h1 h2 h3, where task = 1
        and entry = "0x100" and param = 0 and stack' = 0
        and k = "initCpuUsageState (tTimeTickInit (tTaskDelayedInit
                   (tTaskSchedInit config0 kernel0)))"]
    unfolding mainInit_def by (auto simp: config0_def)
qed

text \<open>
  C9. For a task whose state has the DELAYED bit set, \<open>tTaskSuspend\<close> changes nothing:
  the kernel state after the call is the state before it, so the suspend count and the
  state bits of the task, the ready lists and the bitmap are as they were, and no
  reschedule is requested (\<open>nextTask\<close> and the count of switches are unchanged).
\<close>

theorem tTaskSuspend_delayed_unchanged:
  "tTask.state (tasks k task) AND TINYOS_TASK_STATE_DELAYED cfg \<noteq> 0
   \<Longrightarrow> tTaskSuspend cfg k task = Inr k"
  by (simp add: tTaskSuspend_def)

theorem tTaskSuspend_delayed_unchanged_witness:
  "tTask.state (tasks (kernel0\<lparr>tasks := (\<lambda>_. task0)(3 := task0\<lparr>tTask.state := 2\<rparr>)\<rparr>) 3)
      AND TINYOS_TASK_STATE_DELAYED config0 \<noteq> 0 \<and>
   tTaskSuspend config0 (kernel0\<lparr>tasks := (\<lambda>_. task0)(3 := task0\<lparr>tTask.state := 2\<rparr>)\<rparr>) 3
     = Inr (kernel0\<lparr>tasks := (\<lambda>_. task0)(3 := task0\<lparr>tTask.state := 2\<rparr>)\<rparr>)"
proof -
  have h: "tTask.state (tasks (kernel0\<lparr>tasks := (\<lambda>_. task0)(3 := task0\<lparr>tTask.state := 2\<rparr>)\<rparr>) 3)
      AND TINYOS_TASK_STATE_DELAYED config0 \<noteq> 0"
    by (simp add: config0_def)
  show ?thesis using h tTaskSuspend_delayed_unchanged [OF h] by simp
qed

lemma stackFreeLoop_all_zero:
  "(\<forall>a. inStack (stackBase t) (tTask.stackSize t) a \<longrightarrow> memory k a = 0)
    \<Longrightarrow> stackFreeLoop k t stackEnd free = Inl StackOutOfRange"
proof (induction k t stackEnd free rule: stackFreeLoop.induct)
  case (1 k t stackEnd free)
  show ?case
  proof (cases "inStack (stackBase t) (tTask.stackSize t) stackEnd")
    case False
    then show ?thesis by (subst stackFreeLoop.simps) simp
  next
    case True
    then have m: "memory k stackEnd = 0" using "1.prems" by blast
    have b: "stackEnd + 1 \<le> stackBase t + unat (tTask.stackSize t) div 4"
      using True by (simp add: inStack_def)
    have "stackFreeLoop k t (stackEnd + 1) (free + 1) = Inl StackOutOfRange"
      using "1.IH" [OF True] m b "1.prems" by simp
    then show ?thesis using True m b by (subst stackFreeLoop.simps) simp
  qed
qed

lemma stackFreeLoop_stops_at_nonzero:
  "inStack (stackBase t) (tTask.stackSize t) j \<Longrightarrow> stackBase t \<le> i \<Longrightarrow> i \<le> j \<Longrightarrow>
   (\<forall>a. i \<le> a \<and> a < j \<longrightarrow> memory k a = 0) \<Longrightarrow> memory k j \<noteq> 0 \<Longrightarrow>
   stackFreeLoop k t i free = Inr (free + of_nat (j - i))"
proof (induction k t i free rule: stackFreeLoop.induct)
  case (1 k t i free)
  show ?case
  proof (cases "i = j")
    case True
    then show ?thesis using "1.prems" by (subst stackFreeLoop.simps) simp
  next
    case False
    then have lt: "i < j" using "1.prems" by simp
    have ins: "inStack (stackBase t) (tTask.stackSize t) i"
      using "1.prems" lt by (simp add: inStack_def)
    have z: "memory k i = 0" using "1.prems" lt by simp
    have b: "i + 1 \<le> stackBase t + unat (tTask.stackSize t) div 4"
      using ins by (simp add: inStack_def)
    have "stackFreeLoop k t (i + 1) (free + 1) = Inr (free + 1 + of_nat (j - (i + 1)))"
      using "1.IH" [OF ins] z b "1.prems" lt by simp
    moreover have "free + 1 + of_nat (j - (i + 1)) = free + of_nat (j - i)"
    proof -
      have "j - i = Suc (j - (i + 1))" using lt by simp
      then show ?thesis by (simp only: of_nat_Suc) simp
    qed
    ultimately show ?thesis using ins z b by (subst stackFreeLoop.simps) simp
  qed
qed

text \<open>Right after \<open>tTaskInit\<close> the loop stops at the lowest word of the initial frame
  (R4, the value 4) and reads inside the region only.\<close>

lemma tTaskGetInfo_after_tTaskInit:
  assumes "16 \<le> unat stackSize' div 4"
  shows "\<exists>k' info. tTaskInit cfg k task entry param prio' stack' stackSize' = Inr k' \<and>
      tTaskGetInfo k' task = Inr info \<and>
      stackFree info = (of_nat (unat stackSize' div 4 - 16)) * 4"
proof -
  let ?n = "unat stackSize' div 4"
  let ?m1 = "memsetZero (memory k) stack' (unat stackSize')"
  have fr: "length (initialFrame entry param) = 16" "initialFrame entry param \<noteq> []"
      "last (initialFrame entry param) = 4"
    by (simp_all add: initialFrame_def)
  have "stack' + length (initialFrame entry param) \<le> stack' + ?n"
    using assms(1) by (simp add: fr)
  from pushWords_in_range [OF this, of stackSize' ?m1]
  obtain m2 where m2:
    "pushWords stack' stackSize' ?m1 (stack' + ?n) (initialFrame entry param)
       = Inr (m2, stack' + ?n - 16)"
    "\<forall>a. a < stack' + ?n - 16 \<longrightarrow> m2 a = ?m1 a"
    "m2 (stack' + ?n - 16) = 4"
    by (auto simp: fr)
  have z: "\<forall>a. stack' \<le> a \<and> a < stack' + ?n - 16 \<longrightarrow> m2 a = 0"
    using m2(2) by (auto simp: memsetZero_def)
  define t where "t = (tasks k task)\<lparr>tTask.stack := stack' + ?n - 16, stackBase := stack',
      tTask.stackSize := stackSize', tTask.delayTicks := 0, tTask.prio := prio',
      tTask.state := TINYOS_TASK_STATE_RDY, tTask.slice := TINYOS_SLICE_MAX cfg,
      tTask.suspendCount := 0, clean := 0, cleanParam := 0, requestDeleteFlag := 0\<rparr>"
  define k' where "k' = tTaskSchedRdy (k\<lparr>memory := m2, tasks := (tasks k)(task := t)\<rparr>) task"
  have init: "tTaskInit cfg k task entry param prio' stack' stackSize' = Inr k'"
    using m2(1) by (simp add: tTaskInit_def Let_def k'_def t_def)
  have kt: "tasks k' task = t" "memory k' = m2"
    by (simp_all add: k'_def tTaskSchedRdy_def Let_def)
  have tb: "stackBase t = stack'" "tTask.stackSize t = stackSize'"
    by (simp_all add: t_def)
  have ins: "inStack (stackBase t) (tTask.stackSize t) (stack' + ?n - 16)"
    using assms unfolding tb inStack_def by arith
  have "stackFreeLoop k' t stack' 0 = Inr (0 + of_nat (stack' + ?n - 16 - stack'))"
    by (rule stackFreeLoop_stops_at_nonzero [OF ins]) (use z m2(3) assms in \<open>auto simp: tb kt\<close>)
  then have "stackFreeLoop k' t (stackBase t) 0 = Inr (of_nat (?n - 16))"
    by (simp add: tb)
  then show ?thesis using init kt by (simp add: tTaskGetInfo_def Let_def)
qed

text \<open>
  C10. The claim: the loop of \<open>tTaskGetInfo\<close> that measures the free stack reads only
  words of the task's own stack region, also when the whole region holds zeros. The
  loop reads \<open>*stackEnd\<close> before it compares the incremented pointer with the end of
  the region, and compares with \<open><=\<close>: over a region of zeros it reads the word after
  the last one. Here the task block is as \<open>tTaskInit\<close> leaves it for a stack of 64
  bytes, and the words of the stack have since been overwritten with zeros.
\<close>

theorem tTaskGetInfo_reads_past_zero_stack:
  "\<exists>k. tTaskInit config0 kernel0 1 0x100 0 0 0 64 = Inr k \<and>
       tTaskGetInfo (k\<lparr>memory := (\<lambda>_. 0)\<rparr>) 1 = Inl StackOutOfRange"
  by (simp add: tTaskInit_def initialFrame_def inStack_def Let_def tTaskGetInfo_def
      tTaskSchedRdy_def kernel0_def task0_def stackFreeLoop_all_zero)

section \<open>Timers\<close>

lemma timerListGet_Set [simp]: "timerListGet (timerListSet tm l ns) l = ns"
  by (cases l) (simp_all add: timerListGet_def timerListSet_def)

lemma timerListSet_fields [simp]:
  "timers (timerListSet tm l ns) = timers tm"
  "timerFuncCalls (timerListSet tm l ns) = timerFuncCalls tm"
  by (cases l; simp add: timerListSet_def)+

lemma timerListGet_upd [simp]:
  "timerListGet (tm\<lparr>timers := ts\<rparr>) l = timerListGet tm l"
  "timerListGet (tm\<lparr>timerFuncCalls := cs\<rparr>) l = timerListGet tm l"
  by (cases l; simp add: timerListGet_def)+

lemma timerCallFuncNode_timers:
  "timers (timerCallFuncNode tm l x) = (timers tm)(x := timerAfterScan (timers tm x))"
  by (auto simp: timerCallFuncNode_def timerAfterScan_def timerExpires_def Let_def)

lemma timerCallFuncNode_list:
  "timerListGet (timerCallFuncNode tm l x) l =
     (if timerExpires (timers tm x) \<and> durationTicks (timers tm x) = 0
      then removeAll x (timerListGet tm l) else timerListGet tm l)"
  by (auto simp: timerCallFuncNode_def timerExpires_def Let_def tListRemove_def word_gt_0)

lemma timerCallFuncNode_calls:
  "timerFuncCalls (timerCallFuncNode tm l x) =
     timerFuncCalls tm @ (if timerExpires (timers tm x)
                          then [(timerFunc (timers tm x), arg (timers tm x))] else [])"
  by (auto simp: timerCallFuncNode_def timerExpires_def Let_def)

lemma timerCallFuncWalk_timers:
  "distinct ts \<Longrightarrow> timers (timerCallFuncWalk tm l ts) y =
     (if y \<in> set ts then timerAfterScan (timers tm y) else timers tm y)"
  by (induction ts arbitrary: tm) (auto simp: timerCallFuncNode_timers)

lemma timerCallFuncWalk_list:
  "distinct ts \<Longrightarrow> timerListGet (timerCallFuncWalk tm l ts) l =
     filter (\<lambda>y. \<not> (y \<in> set ts \<and> timerExpires (timers tm y)
                    \<and> durationTicks (timers tm y) = 0))
       (timerListGet tm l)"
proof (induction ts arbitrary: tm)
  case Nil
  then show ?case by simp
next
  case (Cons x ts)
  have d: "distinct ts" "x \<notin> set ts" using Cons.prems by simp_all
  have same: "\<And>y. y \<in> set ts \<Longrightarrow> timers (timerCallFuncNode tm l x) y = timers tm y"
    using d by (auto simp: timerCallFuncNode_timers)
  have "timerListGet (timerCallFuncWalk tm l (x # ts)) l =
      filter (\<lambda>y. \<not> (y \<in> set ts \<and> timerExpires (timers tm y)
                     \<and> durationTicks (timers tm y) = 0))
        (timerListGet (timerCallFuncNode tm l x) l)"
    using Cons.IH [OF d(1), of "timerCallFuncNode tm l x"] same
    by (simp cong: filter_cong conj_cong)
  then show ?case
    by (auto simp: timerCallFuncNode_list removeAll_filter_not_eq intro!: filter_cong)
qed

lemma timerCallFuncWalk_calls:
  "distinct ts \<Longrightarrow> timerFuncCalls (timerCallFuncWalk tm l ts) =
     timerFuncCalls tm @ map (\<lambda>y. (timerFunc (timers tm y), arg (timers tm y)))
       (filter (\<lambda>y. timerExpires (timers tm y)) ts)"
proof (induction ts arbitrary: tm)
  case Nil
  then show ?case by simp
next
  case (Cons x ts)
  have d: "distinct ts" "x \<notin> set ts" using Cons.prems by simp_all
  have same: "\<And>y. y \<in> set ts \<Longrightarrow> timers (timerCallFuncNode tm l x) y = timers tm y"
    using d by (auto simp: timerCallFuncNode_timers)
  have "map (\<lambda>y. (timerFunc (timers (timerCallFuncNode tm l x) y),
                  arg (timers (timerCallFuncNode tm l x) y)))
       (filter (\<lambda>y. timerExpires (timers (timerCallFuncNode tm l x) y)) ts)
     = map (\<lambda>y. (timerFunc (timers tm y), arg (timers tm y)))
       (filter (\<lambda>y. timerExpires (timers tm y)) ts)"
    using same by (simp cong: filter_cong map_cong)
  then show ?case
    using Cons.IH [OF d(1), of "timerCallFuncNode tm l x"]
    by (simp add: timerCallFuncNode_calls)
qed

lemma timerExample_eq:
  "timerExample = \<lparr>timers = (\<lambda>_. timer0)
       (4 := \<lparr>startDelayTicks = 0, durationTicks = 0, tTimer.delayTicks = 0, timerFunc = 0x200,
              arg = 7, config = 1, tTimer.state = tTimerStarted\<rparr>,
        2 := \<lparr>startDelayTicks = 1, durationTicks = 5, tTimer.delayTicks = 1, timerFunc = 0x300,
              arg = 8, config = 1, tTimer.state = tTimerStarted\<rparr>,
        3 := \<lparr>startDelayTicks = 4, durationTicks = 0, tTimer.delayTicks = 4, timerFunc = 0x400,
              arg = 9, config = 1, tTimer.state = tTimerStarted\<rparr>),
     tTimerHardList = [3, 2, 4], tTimerSoftList = [], timerFuncCalls = []\<rparr>"
  by (simp add: timerExample_def tTimerStart_def tTimerInit_def timerModule0_def timer0_def
      TIMER_CONFIG_TYPE_HARD_def Let_def tListAddFirst_def)

text \<open>
  C6, as stated: during a scan the callback of a timer is invoked exactly when
  decrementing its \<open>delayTicks\<close> makes it reach 0. The test of the code is
  \<open>(timer->delayTicks == 0) || (--timer->delayTicks == 0)\<close>: a timer whose countdown is
  0 already (a one-shot timer started with no delay and no period, timer 4 here) has
  its callback invoked with no decrement, although decrementing 0 does not give 0.
\<close>

theorem tTimerCallFuncList_zero_countdown_counterexample:
  "tTimer.delayTicks (timers timerExample 4) = 0 \<and>
   tTimer.delayTicks (timers timerExample 4) - 1 \<noteq> 0 \<and>
   tTimerHardList timerExample = [3, 2, 4] \<and>
   timerFuncCalls timerExample = [] \<and>
   timerFuncCalls (tTimerCallFuncList timerExample HardListRef) = [(0x300, 8), (0x200, 7)] \<and>
   tTimer.delayTicks (timers (tTimerCallFuncList timerExample HardListRef) 4) = 0"
  by (simp add: timerExample_eq tTimerCallFuncList_def timerListGet_def timerListSet_def
      timerCallFuncNode_def Let_def tListRemove_def)

text \<open>
  C6, amended: during a scan by \<open>tTimerCallFuncList\<close> of a list whose timers are each
  linked once, the callback of a timer is invoked exactly when its \<open>delayTicks\<close> is 0
  already (it is then not decremented) or decrementing it makes it reach 0; the calls
  are made in the order of the list. After the callback has returned, a timer with
  \<open>durationTicks > 0\<close> has state STARTED and \<open>delayTicks\<close> reset to \<open>durationTicks\<close>
  and is still on the list, and a timer with \<open>durationTicks = 0\<close> is removed from the
  list with state STOPPED. A timer whose decremented countdown is not 0 is unchanged
  apart from the decrement and stays on the list.
\<close>

theorem tTimerCallFuncList_scan:
  assumes "distinct (timerListGet tm l)" and "timer \<in> set (timerListGet tm l)"
  shows "(let t = timers tm timer; tm' = tTimerCallFuncList tm l; t' = timers tm' timer;
            expires = (tTimer.delayTicks t = 0 \<or> tTimer.delayTicks t - 1 = 0)
          in timerFuncCalls tm' = timerFuncCalls tm @
               map (\<lambda>y. (timerFunc (timers tm y), arg (timers tm y)))
                 (filter (\<lambda>y. tTimer.delayTicks (timers tm y) = 0
                               \<or> tTimer.delayTicks (timers tm y) - 1 = 0) (timerListGet tm l)) \<and>
             (expires \<and> durationTicks t > 0 \<longrightarrow>
                t' = t\<lparr>tTimer.delayTicks := durationTicks t, tTimer.state := tTimerStarted\<rparr>
                \<and> timer \<in> set (timerListGet tm' l)) \<and>
             (expires \<and> durationTicks t = 0 \<longrightarrow>
                t' = t\<lparr>tTimer.delayTicks := 0, tTimer.state := tTimerStopped\<rparr>
                \<and> timer \<notin> set (timerListGet tm' l)) \<and>
             (\<not> expires \<longrightarrow>
                t' = t\<lparr>tTimer.delayTicks := tTimer.delayTicks t - 1\<rparr>
                \<and> timer \<in> set (timerListGet tm' l)))"
  using assms
  by (simp add: Let_def tTimerCallFuncList_def timerCallFuncWalk_timers timerCallFuncWalk_list
      timerCallFuncWalk_calls timerAfterScan_def timerExpires_def word_gt_0)

theorem tTimerCallFuncList_scan_witness:
  "distinct (timerListGet timerExample HardListRef) \<and>
   4 \<in> set (timerListGet timerExample HardListRef) \<and>
   2 \<in> set (timerListGet timerExample HardListRef) \<and>
   3 \<in> set (timerListGet timerExample HardListRef) \<and>
   timerFuncCalls (tTimerCallFuncList timerExample HardListRef) = [(0x300, 8), (0x200, 7)] \<and>
   tTimer.state (timers (tTimerCallFuncList timerExample HardListRef) 4) = tTimerStopped \<and>
   4 \<notin> set (timerListGet (tTimerCallFuncList timerExample HardListRef) HardListRef) \<and>
   tTimer.state (timers (tTimerCallFuncList timerExample HardListRef) 2) = tTimerStarted \<and>
   tTimer.delayTicks (timers (tTimerCallFuncList timerExample HardListRef) 2) = 5 \<and>
   2 \<in> set (timerListGet (tTimerCallFuncList timerExample HardListRef) HardListRef) \<and>
   tTimer.delayTicks (timers (tTimerCallFuncList timerExample HardListRef) 3) = 3 \<and>
   3 \<in> set (timerListGet (tTimerCallFuncList timerExample HardListRef) HardListRef)"
proof -
  have d: "distinct (timerListGet timerExample HardListRef)"
    by (simp add: timerExample_eq timerListGet_def)
  have m: "4 \<in> set (timerListGet timerExample HardListRef)"
    "2 \<in> set (timerListGet timerExample HardListRef)"
    "3 \<in> set (timerListGet timerExample HardListRef)"
    by (simp_all add: timerExample_eq timerListGet_def)
  have v: "timers timerExample 4 = \<lparr>startDelayTicks = 0, durationTicks = 0,
        tTimer.delayTicks = 0, timerFunc = 0x200, arg = 7, config = 1,
        tTimer.state = tTimerStarted\<rparr>"
    "timers timerExample 2 = \<lparr>startDelayTicks = 1, durationTicks = 5,
        tTimer.delayTicks = 1, timerFunc = 0x300, arg = 8, config = 1,
        tTimer.state = tTimerStarted\<rparr>"
    "timers timerExample 3 = \<lparr>startDelayTicks = 4, durationTicks = 0,
        tTimer.delayTicks = 4, timerFunc = 0x400, arg = 9, config = 1,
        tTimer.state = tTimerStarted\<rparr>"
    "timerListGet timerExample HardListRef = [3, 2, 4]"
    "timerFuncCalls timerExample = []"
    by (simp_all add: timerExample_eq timerListGet_def)
  show ?thesis
    using d m tTimerCallFuncList_scan [OF d m(1)] tTimerCallFuncList_scan [OF d m(2)]
      tTimerCallFuncList_scan [OF d m(3)]
    by (simp add: Let_def v)
qed

lemma tTimerStart_after_stop_not_listed:
  "timer \<notin> set (timerOwnList
      (tTimerStart (tTimerStop (tTimerStart (tTimerInit tm timer d p f a c) timer) timer) timer)
      timer) \<and>
   timer \<in> set (timerOwnList (tTimerStart (tTimerInit tm timer d p f a c) timer) timer)"
  by (simp add: timerOwnList_def tTimerStart_def tTimerStop_def tTimerInit_def Let_def
      tListAddFirst_def tListRemove_def tListAddLast_def)

text \<open>
  C7. The claim: \<open>tTimerStart\<close>, \<open>tTimerStop\<close>, \<open>tTimerStart\<close> leaves a timer in the same
  observable state (state field, countdown, membership in the hard or soft list) as
  \<open>tTimerStart\<close> right after \<open>tTimerInit\<close>. \<open>tTimerStop\<close> unlinks the timer and leaves
  its state \<open>tTimerStarted\<close>, so the second \<open>tTimerStart\<close> takes the default branch and
  does nothing: the timer stays off its list. Here a hard timer with period 5.
\<close>

theorem tTimerStart_stop_start_differs:
  "timerObservable
     (tTimerStart (tTimerStop (tTimerStart
        (tTimerInit timerModule0 1 0 5 0x200 0 TIMER_CONFIG_TYPE_HARD) 1) 1) 1) 1
     = (tTimerStarted, 5, False, False) \<and>
   timerObservable
     (tTimerStart (tTimerInit timerModule0 1 0 5 0x200 0 TIMER_CONFIG_TYPE_HARD) 1) 1
     = (tTimerStarted, 5, True, False)"
  by (simp add: timerObservable_def tTimerStart_def tTimerStop_def tTimerInit_def
      timerModule0_def timer0_def TIMER_CONFIG_TYPE_HARD_def Let_def tListAddFirst_def
      tListRemove_def tListAddLast_def)

end
